theory Spec2Isabelle
  imports Complex_Main "HOL-Library.Word"
begin

section \<open>EduSynth: the wavetable synthesizer of ComplexSynthV7.py\<close>

text \<open>
  The development follows \<^verbatim>\<open>src/ComplexSynthV7.py\<close> (class \<^verbatim>\<open>SynthGenerator\<close> and
  class \<^verbatim>\<open>Note\<close>). Python and numpy floating-point numbers are idealised as real
  numbers: \<^verbatim>\<open>np.float32(x)\<close> and \<^verbatim>\<open>.astype(np.float32)\<close> are the identity, and
  arithmetic is exact. Integer casts, rounding modes, slicing, broadcasting and the
  exceptions the code can raise are modelled as the source has them.
\<close>

subsection \<open>Data model\<close>

datatype py_error = IndexError | ValueError

datatype NoteStates = NULL | OFF | ATTACK | ON | DECAY

text \<open>\<^verbatim>\<open>note.volume\<close> is a scalar or a numpy array, depending on the state of the note.\<close>

datatype vol = Scalar real | Array "real list"

text \<open>
  The attributes of class \<^verbatim>\<open>Note\<close> that the synthesizer reads back. The display name
  \<^verbatim>\<open>note\<close>, \<^verbatim>\<open>justFreqAdjust\<close> and \<^verbatim>\<open>randomFreq\<close> are written once and never read
  by the code modelled here; they are left out. \<^verbatim>\<open>initNull\<close> does not set \<^verbatim>\<open>octave\<close>; a
  placeholder note carries 0 there.
\<close>

record Note =
  state :: NoteStates
  pitch :: int
  octave :: int
  init_frequency :: real
  frequency :: real
  init_volume :: real
  volume :: vol
  phase_index :: real
  profile_phase_index :: nat
  randLvl :: real

text \<open>The enumeration \<^verbatim>\<open>waveforms\<close>; the suffix keeps \<^verbatim>\<open>sin\<close> apart from the sine function.\<close>

datatype waveforms = zero_wf | sin_wf | tri_wf | square_wf | saw_wf | other_wf

record Synth =
  activeNotes :: "Note list"
  WAVEFORM :: waveforms
  AttackCycles :: nat
  DecayCycles :: nat
  attackProfile :: "real list"
  decayProfile :: "real list"
  WaveArray :: "real list"
  VOLUME :: real
  pitchWheelFreq :: real
  wobbleIndex :: nat
  wobbleRate :: nat
  wobbleMag :: real
  WOBBLE_PROFILE :: "real list"
  notesFreqAdjust :: real
  synth_randLvl :: real
  justIntonation :: bool
  justRootPitch :: int
  justRootFreq :: real
  NumHarmonics :: nat

definition SAMPLE_RATE :: nat where "SAMPLE_RATE = 48000"
definition BLOCKSIZE :: nat where "BLOCKSIZE = 512"
definition MAX_NOTES :: nat where "MAX_NOTES = 10"
definition WAVE_SAMPLES :: nat where "WAVE_SAMPLES = 2048"

definition STEPS_PER_CYCLE :: real where
  "STEPS_PER_CYCLE = real WAVE_SAMPLES / real SAMPLE_RATE"

subsection \<open>numpy primitives\<close>

text \<open>\<^verbatim>\<open>np.round\<close> and \<^verbatim>\<open>np.around\<close> round to the nearest integer, ties to the even one.\<close>

definition np_round :: "real \<Rightarrow> int" where
  "np_round x =
     (let f = \<lfloor>x\<rfloor>; d = x - of_int f
      in if d < 1 / 2 then f
         else if 1 / 2 < d then f + 1
         else if even f then f else f + 1)"

text \<open>
  \<^verbatim>\<open>.astype(np.uint16)\<close> on an integral float. Values in \<open>[0, 65535]\<close> are kept; outside
  that range the low 16 bits are kept, which is what the cast does on the usual
  platforms. Since \<open>2048\<close> divides \<open>65536\<close>, the following \<^verbatim>\<open>%= WAVE_SAMPLES\<close> gives the
  same index either way.
\<close>

definition astype_uint16 :: "int \<Rightarrow> 16 word" where
  "astype_uint16 z = word_of_int z"

text \<open>Python's \<^verbatim>\<open>%\<close> on floats, for a positive modulus: the result has the sign of the modulus.\<close>

definition fmod :: "real \<Rightarrow> real \<Rightarrow> real" where
  "fmod x m = x - m * of_int \<lfloor>x / m\<rfloor>"

text \<open>
  \<^verbatim>\<open>np.arange(start, stop, step)\<close> has \<open>\<lceil>(stop - start) / step\<rceil>\<close> elements
  \<open>start + i * step\<close>; a zero step makes the length a NaN and raises \<^verbatim>\<open>ValueError\<close>.
\<close>

definition arange :: "real \<Rightarrow> real \<Rightarrow> real \<Rightarrow> py_error + real list" where
  "arange start stop step =
     (if step = 0 then Inl ValueError
      else Inr (map (\<lambda>i. start + real i * step) [0..<nat \<lceil>(stop - start) / step\<rceil>]))"

text \<open>Fancy indexing \<^verbatim>\<open>a[idx]\<close> with an array of unsigned indices.\<close>

definition take_idx :: "real list \<Rightarrow> nat list \<Rightarrow> py_error + real list" where
  "take_idx a idx =
     (if \<forall>p \<in> set idx. p < length a then Inr (map (\<lambda>p. a ! p) idx) else Inl IndexError)"

text \<open>A slice \<^verbatim>\<open>a[start:end]\<close> with \<open>0 \<le> start \<le> end\<close>; it never raises.\<close>

definition slice :: "'a list \<Rightarrow> nat \<Rightarrow> nat \<Rightarrow> 'a list" where
  "slice a start end = take (end - start) (drop start a)"

text \<open>Elementwise product of two one-dimensional arrays, with numpy's broadcasting.\<close>

definition mul_arrays :: "real list \<Rightarrow> real list \<Rightarrow> py_error + real list" where
  "mul_arrays a b =
     (if length a = length b then Inr (map (\<lambda>(x, y). x * y) (zip a b))
      else if length b = 1 then Inr (map (\<lambda>x. x * hd b) a)
      else if length a = 1 then Inr (map (\<lambda>y. hd a * y) b)
      else Inl ValueError)"

fun mul_vol :: "real list \<Rightarrow> vol \<Rightarrow> py_error + real list" where
  "mul_vol a (Scalar v) = Inr (map (\<lambda>x. x * v) a)"
| "mul_vol a (Array vs) = mul_arrays a vs"

subsection \<open>Oscillator: \<^verbatim>\<open>SynthGenerator.genSoundData\<close>\<close>

text \<open>
  Steps 1 and 2 of \<^verbatim>\<open>genSoundData\<close>: the \<^verbatim>\<open>np.arange\<close> of float phases, cut to 512,
  rounded, cast to \<^verbatim>\<open>uint16\<close> and wrapped modulo \<^verbatim>\<open>WAVE_SAMPLES\<close>.
\<close>

definition float_phases :: "real \<Rightarrow> real \<Rightarrow> py_error + real list" where
  "float_phases phase phase_increment =
     (case arange phase (phase + phase_increment * real BLOCKSIZE) phase_increment of
        Inl e \<Rightarrow> Inl e
      | Inr ph \<Rightarrow> Inr (take 512 ph))"

definition wrap_phase :: "real \<Rightarrow> nat" where
  "wrap_phase x = unat (astype_uint16 (np_round x) mod word_of_nat WAVE_SAMPLES)"

definition phase_indices :: "real \<Rightarrow> real \<Rightarrow> py_error + nat list" where
  "phase_indices phase phase_increment =
     (case float_phases phase phase_increment of
        Inl e \<Rightarrow> Inl e
      | Inr ph \<Rightarrow> Inr (map wrap_phase ph))"

text \<open>
  \<^verbatim>\<open>genSoundData\<close> mutates the note in place, so the note is returned also when the
  call raises: the writes made before the exception stay.
\<close>

definition sample_block :: "Synth \<Rightarrow> Note \<Rightarrow> nat list \<Rightarrow> py_error + real list" where
  "sample_block s note phases =
     (case take_idx (WaveArray s) phases of
        Inl e \<Rightarrow> Inl e
      | Inr samples \<Rightarrow>
          (case mul_vol samples (volume note) of
             Inl e \<Rightarrow> Inl e
           | Inr scaled \<Rightarrow> Inr (map (\<lambda>x. of_int (np_round (x * VOLUME s))) scaled)))"

definition genSoundData :: "Synth \<Rightarrow> Note \<Rightarrow> Note \<times> (py_error + real list)" where
  "genSoundData s note =
     (let note1 = note\<lparr>frequency := init_frequency note + notesFreqAdjust s\<rparr>;
          phase_increment = frequency note1 * STEPS_PER_CYCLE
      in case phase_indices (phase_index note1) phase_increment of
           Inl e \<Rightarrow> (note1, Inl e)
         | Inr phases \<Rightarrow>
             (if phases = [] then (note1, Inl IndexError)
              else
                (let note2 = note1\<lparr>phase_index :=
                               fmod (real (last phases) + phase_increment) (real WAVE_SAMPLES)\<rparr>
                 in (note2, sample_block s note2 phases))))"

subsection \<open>Envelope and per-voice rendering: \<^verbatim>\<open>SynthGenerator.genWave\<close>\<close>

text \<open>\<^verbatim>\<open>Note.initNull\<close>: the placeholder note of a free slot.\<close>

definition initNull :: Note where
  "initNull =
     \<lparr>state = NULL, pitch = 0, octave = 0, init_frequency = 0, frequency = 0,
      init_volume = 0, volume = Scalar 0, phase_index = 0, profile_phase_index = 0,
      randLvl = 0\<rparr>"

text \<open>
  \<^verbatim>\<open>deleteNote(note)\<close> replaces every slot that holds the object \<^verbatim>\<open>note\<close> (class
  \<^verbatim>\<open>Note\<close> defines no \<^verbatim>\<open>__eq__\<close>, so \<^verbatim>\<open>==\<close> is identity) by a fresh placeholder. Every
  slot holds an object of its own, so this is the slot the note came from.
\<close>

definition deleteNote :: "Synth \<Rightarrow> nat \<Rightarrow> Synth" where
  "deleteNote s i = s\<lparr>activeNotes := (activeNotes s)[i := initNull]\<rparr>"

text \<open>
  The state branches of \<^verbatim>\<open>genWave\<close> before the call of \<^verbatim>\<open>genSoundData\<close>. The flag
  tells whether the \<^verbatim>\<open>DECAY\<close> branch called \<^verbatim>\<open>deleteNote\<close>.
\<close>

definition advance_envelope :: "Synth \<Rightarrow> Note \<Rightarrow> Note \<times> bool" where
  "advance_envelope s note =
     (case state note of
        DECAY \<Rightarrow>
          (let start = profile_phase_index note * BLOCKSIZE;
               end = start + BLOCKSIZE;
               note1 = note\<lparr>volume :=
                 Array (map (\<lambda>x. init_volume note * x) (slice (decayProfile s) start end))\<rparr>
           in if DecayCycles s \<le> profile_phase_index note1
              then (note1\<lparr>profile_phase_index := 0\<rparr>, True)
              else (note1\<lparr>profile_phase_index := profile_phase_index note1 + 1\<rparr>, False))
      | ATTACK \<Rightarrow>
          (let start = profile_phase_index note * BLOCKSIZE;
               end = start + BLOCKSIZE;
               note1 = note\<lparr>volume :=
                 Array (map (\<lambda>x. init_volume note * x) (slice (attackProfile s) start end))\<rparr>
           in if AttackCycles s \<le> profile_phase_index note1
              then (note1\<lparr>profile_phase_index := 0, state := ON\<rparr>, False)
              else (note1\<lparr>profile_phase_index := profile_phase_index note1 + 1\<rparr>, False))
      | ON \<Rightarrow> (note\<lparr>volume := Scalar (init_volume note)\<rparr>, False)
      | _ \<Rightarrow> (note, False))"

text \<open>
  \<^verbatim>\<open>genWave(note)\<close> for the note of slot \<open>i\<close>. After \<^verbatim>\<open>deleteNote\<close> the slot holds the
  placeholder, and what \<^verbatim>\<open>genSoundData\<close> then writes goes to the old object, which
  the pool no longer holds.
\<close>

definition genWave :: "Synth \<Rightarrow> nat \<Rightarrow> Synth \<times> (py_error + real list)" where
  "genWave s i =
     (let note = activeNotes s ! i
      in if state note = OFF then (s, Inr (replicate BLOCKSIZE 0))
         else
           (let (note1, deleted) = advance_envelope s note;
                (note2, soundData) = genSoundData s note1
            in if deleted then (deleteNote s i, soundData)
               else (s\<lparr>activeNotes := (activeNotes s)[i := note2]\<rparr>, soundData)))"

subsection \<open>The audio callback: \<^verbatim>\<open>SynthGenerator.runStream\<close>\<close>

text \<open>\<^verbatim>\<open>data += soundData\<close> on one-dimensional arrays.\<close>

definition iadd :: "real list \<Rightarrow> real list \<Rightarrow> py_error + real list" where
  "iadd a b =
     (if length b = length a then Inr (map (\<lambda>(x, y). x + y) (zip a b))
      else if length b = 1 then Inr (map (\<lambda>x. x + hd b) a)
      else Inl ValueError)"

text \<open>
  The loop \<^verbatim>\<open>for note in self.__activeNotes\<close> inside the \<^verbatim>\<open>try\<close>. It returns the pool,
  the samples summed so far and the exception that ended it, if any.
\<close>

fun mix_voices :: "Synth \<Rightarrow> nat list \<Rightarrow> real list \<Rightarrow> Synth \<times> real list \<times> py_error option" where
  "mix_voices s [] data = (s, data, None)"
| "mix_voices s (i # slots) data =
     (if state (activeNotes s ! i) \<noteq> NULL
      then (case genWave s i of
              (s', Inl e) \<Rightarrow> (s', data, Some e)
            | (s', Inr soundData) \<Rightarrow>
                (case iadd data soundData of
                   Inl e \<Rightarrow> (s', data, Some e)
                 | Inr data' \<Rightarrow> mix_voices s' slots data'))
      else mix_voices s slots data)"

text \<open>\<^verbatim>\<open>np.clip(data, -2**15+1, 2**15-1).astype(np.int16)\<close>: the cast truncates towards zero.\<close>

definition np_clip :: "real \<Rightarrow> real \<Rightarrow> real \<Rightarrow> real" where
  "np_clip x lo hi = min (max x lo) hi"

definition trunc :: "real \<Rightarrow> int" where
  "trunc x = (if 0 \<le> x then \<lfloor>x\<rfloor> else \<lceil>x\<rceil>)"

definition clip_int16 :: "real list \<Rightarrow> int list" where
  "clip_int16 data = map (\<lambda>x. trunc (np_clip x (- (2 ^ 15) + 1) (2 ^ 15 - 1))) data"

text \<open>
  The modulation update at the head of \<^verbatim>\<open>runStream\<close>: the pitch wheel offset, the step of
  the wobble index, and the read of the wobble profile when the wobble is on. The
  read is outside the \<^verbatim>\<open>try\<close>.
\<close>

definition advance_wobble :: "Synth \<Rightarrow> Synth" where
  "advance_wobble s =
     s\<lparr>notesFreqAdjust := pitchWheelFreq s,
       wobbleIndex := (wobbleIndex s + 1) mod wobbleRate s\<rparr>"

definition apply_wobble :: "Synth \<Rightarrow> py_error + Synth" where
  "apply_wobble s =
     (if 0 < wobbleMag s
      then (if wobbleIndex s < length (WOBBLE_PROFILE s)
            then Inr (s\<lparr>notesFreqAdjust := notesFreqAdjust s
                           + WOBBLE_PROFILE s ! wobbleIndex s * wobbleMag s\<rparr>)
            else Inl IndexError)
      else Inr s)"

text \<open>
  One call of \<^verbatim>\<open>runStream\<close> with no pending MIDI message, no pause request and no
  decimation. \<^verbatim>\<open>IndexError\<close> raised by the mixing loop is caught; any other exception
  leaves the callback. The result is the block handed to the audio stream.
\<close>

definition runStream :: "Synth \<Rightarrow> Synth \<times> (py_error + int list)" where
  "runStream s =
     (let s2 = advance_wobble s
      in case apply_wobble s2 of
           Inl e \<Rightarrow> (s2, Inl e)
         | Inr s3 \<Rightarrow>
             (let (s4, data, err) =
                    mix_voices s3 [0..<length (activeNotes s3)] (replicate BLOCKSIZE 0)
              in if err = Some ValueError then (s4, Inl ValueError)
                 else (s4, Inr (clip_int16 data))))"

text \<open>A run of consecutive calls of \<^verbatim>\<open>runStream\<close>; it ends with the first call that raises.\<close>

fun run_blocks :: "nat \<Rightarrow> Synth \<Rightarrow> py_error + Synth" where
  "run_blocks 0 s = Inr s"
| "run_blocks (Suc n) s =
     (case runStream s of
        (s', Inl e) \<Rightarrow> Inl e
      | (s', Inr block) \<Rightarrow> run_blocks n s')"

text \<open>
  What one call of \<^verbatim>\<open>genWave\<close> leaves in the slot of a note: the note after the
  envelope step and \<^verbatim>\<open>genSoundData\<close>, or the placeholder after \<^verbatim>\<open>deleteNote\<close>.
  \<^verbatim>\<open>runStream\<close> skips the slots in state \<^verbatim>\<open>NULL\<close>.
\<close>

definition render_note :: "Synth \<Rightarrow> Note \<Rightarrow> Note" where
  "render_note s note =
     (if state note = OFF then note
      else (let (note1, deleted) = advance_envelope s note
            in if deleted then initNull else fst (genSoundData s note1)))"

definition render_slot :: "Synth \<Rightarrow> Note \<Rightarrow> Note" where
  "render_slot s note = (if state note = NULL then note else render_note s note)"

text \<open>
  The state on which the mixing loop of \<^verbatim>\<open>runStream\<close> runs when the read of the wobble
  profile is in range.
\<close>

definition modulated :: "Synth \<Rightarrow> Synth" where
  "modulated s =
     (let s2 = advance_wobble s
      in if 0 < wobbleMag s2
         then s2\<lparr>notesFreqAdjust := notesFreqAdjust s2
                    + WOBBLE_PROFILE s2 ! wobbleIndex s2 * wobbleMag s2\<rparr>
         else s2)"

text \<open>
  The values that \<^verbatim>\<open>runStream\<close> can give to \<^verbatim>\<open>notesFreqAdjust\<close>: the pitch wheel offset,
  plus an entry of the wobble profile times the wobble depth when the wobble is on.
\<close>

definition freq_adjustments :: "Synth \<Rightarrow> real list" where
  "freq_adjustments s =
     (if 0 < wobbleMag s
      then map (\<lambda>w. pitchWheelFreq s + w * wobbleMag s) (WOBBLE_PROFILE s)
      else [pitchWheelFreq s])"

text \<open>
  The tables have the lengths that \<^verbatim>\<open>setWaveForm\<close>, \<^verbatim>\<open>setAdsr\<close> and \<^verbatim>\<open>setWobble\<close> give
  them.
\<close>

definition tables_ok :: "Synth \<Rightarrow> bool" where
  "tables_ok s =
     (length (WaveArray s) = WAVE_SAMPLES
      \<and> length (attackProfile s) = BLOCKSIZE * AttackCycles s + 1
      \<and> length (decayProfile s) = BLOCKSIZE * DecayCycles s + 1
      \<and> 0 < wobbleRate s \<and> wobbleRate s \<le> length (WOBBLE_PROFILE s))"

text \<open>
  \<^verbatim>\<open>genWave\<close> raises nothing for a note: the step of \<^verbatim>\<open>np.arange\<close> is not zero, and the
  slice of the envelope profile is not empty.
\<close>

definition renders :: "Synth \<Rightarrow> Note \<Rightarrow> bool" where
  "renders s note =
     (state note = NULL \<or> state note = OFF
      \<or> (init_frequency note + notesFreqAdjust s \<noteq> 0
          \<and> (state note = ATTACK \<longrightarrow> profile_phase_index note \<le> AttackCycles s)
          \<and> (state note = DECAY \<longrightarrow> profile_phase_index note \<le> DecayCycles s)))"

text \<open>A voice renders under every frequency offset that the callback can compute.\<close>

definition voice_ok :: "Synth \<Rightarrow> Note \<Rightarrow> bool" where
  "voice_ok s note =
     list_all (\<lambda>a. renders (s\<lparr>notesFreqAdjust := a\<rparr>) note) (freq_adjustments s)"

definition synth_ok :: "Synth \<Rightarrow> bool" where
  "synth_ok s = (tables_ok s \<and> list_all (voice_ok s) (activeNotes s))"

subsection \<open>Tuning and note creation: class \<^verbatim>\<open>Note\<close>\<close>

definition justRatios :: "real list" where
  "justRatios = [1, 16 / 15, 9 / 8, 6 / 5, 5 / 4, 4 / 3, 45 / 32, 3 / 2, 8 / 5, 5 / 3, 7 / 4, 15 / 8]"

definition freqVolumeAdjust :: "real list" where
  "freqVolumeAdjust = [3.5, 3.5, 2.5, 1.8, 1.2, 1, 0.5, 0.4, 0.4, 0.3, 0.2]"

definition freqRandomAdjust :: "real list" where
  "freqRandomAdjust = [0.8, 0.8, 0.8, 0.6, 0.4, 0.3, 0.2, 0.1, 0, 0, 0]"

text \<open>\<^verbatim>\<open>xs[k]\<close> for an integer \<open>k\<close>: a negative index counts from the end.\<close>

definition py_getitem :: "'a list \<Rightarrow> int \<Rightarrow> py_error + 'a" where
  "py_getitem xs k =
     (if 0 \<le> k \<and> k < int (length xs) then Inr (xs ! nat k)
      else if k < 0 \<and> - int (length xs) \<le> k then Inr (xs ! nat (int (length xs) + k))
      else Inl IndexError)"

text \<open>
  \<^verbatim>\<open>random.uniform(0, maxRand)\<close> is \<open>maxRand * r\<close> for the draw \<open>r\<close> of \<^verbatim>\<open>random.random()\<close>;
  the draw is an argument of the model.
\<close>

definition randFreqAdjust :: "Note \<Rightarrow> real \<Rightarrow> py_error + real" where
  "randFreqAdjust note r =
     (case py_getitem freqRandomAdjust (octave note) of
        Inl e \<Rightarrow> Inl e
      | Inr maxRand \<Rightarrow> Inr (maxRand * r * randLvl note))"

text \<open>\<^verbatim>\<open>Note.__init__(pitch, volume, state, randLvl=randLvl, phase=phase)\<close>.\<close>

definition Note_init :: "int \<Rightarrow> real \<Rightarrow> NoteStates \<Rightarrow> real \<Rightarrow> real \<Rightarrow> real \<Rightarrow> py_error + Note" where
  "Note_init p vel st rl phase r =
     (if st = NULL then Inr initNull
      else
        (let note0 = initNull\<lparr>randLvl := rl, state := st, pitch := p, octave := p div 12\<rparr>
         in case randFreqAdjust note0 r of
              Inl e \<Rightarrow> Inl e
            | Inr adj \<Rightarrow>
                (let f = 440 * 2 powr ((real_of_int p - 69) / 12) + adj
                 in case py_getitem freqVolumeAdjust (octave note0) of
                      Inl e \<Rightarrow> Inl e
                    | Inr fv \<Rightarrow>
                        Inr (note0\<lparr>init_frequency := f, frequency := f,
                                   init_volume := vel * fv, volume := Scalar (vel * fv),
                                   phase_index := phase, profile_phase_index := 0\<rparr>))))"

definition setPhase :: "Note \<Rightarrow> real \<Rightarrow> Note" where
  "setPhase note phase = note\<lparr>phase_index := phase\<rparr>"

definition setJustIntonation :: "Note \<Rightarrow> real \<Rightarrow> int \<Rightarrow> real \<Rightarrow> py_error + Note" where
  "setJustIntonation note rootFreq rootPitch r =
     (let interval = pitch note mod 12 - rootPitch;
          oct = (pitch note - rootPitch) div 12 - 5;
          factor = (if oct = 0 then 1
                    else if oct < 0 then (1 / 2) ^ nat \<bar>oct\<bar>
                    else 2 ^ nat oct)
      in case py_getitem justRatios interval of
           Inl e \<Rightarrow> Inl e
         | Inr ratio \<Rightarrow>
             (case randFreqAdjust note r of
                Inl e \<Rightarrow> Inl e
              | Inr adj \<Rightarrow> Inr (note\<lparr>init_frequency := rootFreq * ratio * factor + adj\<rparr>)))"

definition setJustRoot :: "Synth \<Rightarrow> int \<Rightarrow> Synth" where
  "setJustRoot s p =
     s\<lparr>justRootPitch := p,
       justRootFreq := 440 * 2 powr ((real_of_int (p + 60) - 69) / 12)\<rparr>"

subsection \<open>The voice pool: \<^verbatim>\<open>addNote\<close> and \<^verbatim>\<open>startDecayNote\<close>\<close>

text \<open>The note that \<^verbatim>\<open>addNote\<close> builds for the first free slot; \<open>r1\<close> and \<open>r2\<close> are the random draws.\<close>

definition newNote :: "Synth \<Rightarrow> int \<Rightarrow> real \<Rightarrow> real \<Rightarrow> real \<Rightarrow> py_error + Note" where
  "newNote s p vel r1 r2 =
     (case Note_init p vel ATTACK (synth_randLvl s) 0 r1 of
        Inl e \<Rightarrow> Inl e
      | Inr note \<Rightarrow>
          (case (if justIntonation s
                 then setJustIntonation note (justRootFreq s) (justRootPitch s) r2
                 else Inr note) of
             Inl e \<Rightarrow> Inl e
           | Inr note' \<Rightarrow> Inr (setPhase note' (real WAVE_SAMPLES / pi))))"

text \<open>
  The loop of \<^verbatim>\<open>addNote\<close> over the slots, with the flag \<^verbatim>\<open>noteAdded\<close>. An exception
  from the construction of the note leaves the loop; the slots visited before keep
  what was written to them.
\<close>

fun addNote_loop ::
  "Synth \<Rightarrow> int \<Rightarrow> real \<Rightarrow> real \<Rightarrow> real \<Rightarrow> nat list \<Rightarrow> bool \<Rightarrow> Synth \<times> py_error option" where
  "addNote_loop s p vel r1 r2 [] noteAdded = (s, None)"
| "addNote_loop s p vel r1 r2 (i # slots) noteAdded =
     (if state (activeNotes s ! i) = NULL
      then (if \<not> noteAdded
            then (case newNote s p vel r1 r2 of
                    Inl e \<Rightarrow> (s, Some e)
                  | Inr note \<Rightarrow>
                      addNote_loop (s\<lparr>activeNotes := (activeNotes s)[i := note]\<rparr>)
                        p vel r1 r2 slots True)
            else addNote_loop s p vel r1 r2 slots noteAdded)
      else addNote_loop
             (s\<lparr>activeNotes := (activeNotes s)[i := setPhase (activeNotes s ! i) 0]\<rparr>)
             p vel r1 r2 slots noteAdded)"

definition addNote :: "Synth \<Rightarrow> int \<Rightarrow> real \<Rightarrow> real \<Rightarrow> real \<Rightarrow> Synth \<times> py_error option" where
  "addNote s p vel r1 r2 = addNote_loop s p vel r1 r2 [0..<length (activeNotes s)] False"

text \<open>The loop of \<^verbatim>\<open>startDecayNote\<close>: it has no \<^verbatim>\<open>break\<close>, every slot is visited.\<close>

fun decay_loop :: "int \<Rightarrow> Note list \<Rightarrow> Note list" where
  "decay_loop p [] = []"
| "decay_loop p (note # notes) =
     (if state note \<noteq> NULL
      then (if pitch note = p then note\<lparr>state := DECAY\<rparr> # decay_loop p notes
            else note # decay_loop p notes)
      else note # decay_loop p notes)"

definition startDecayNote :: "Synth \<Rightarrow> int \<Rightarrow> Synth" where
  "startDecayNote s p = s\<lparr>activeNotes := decay_loop p (activeNotes s)\<rparr>"

subsection \<open>Envelope profiles and the wavetable builder\<close>

text \<open>\<^verbatim>\<open>np.linspace(start, stop, num)\<close>.\<close>

definition linspace :: "real \<Rightarrow> real \<Rightarrow> nat \<Rightarrow> real list" where
  "linspace start stop num =
     (if num = 1 then [start]
      else map (\<lambda>k. start + real k * ((stop - start) / real (num - 1))) [0..<num])"

text \<open>\<^verbatim>\<open>setAdsr(attack, decay)\<close>; the pause of the stream around the update is not modelled.\<close>

definition setAdsr :: "Synth \<Rightarrow> nat \<Rightarrow> nat \<Rightarrow> Synth" where
  "setAdsr s attack decay =
     s\<lparr>AttackCycles := attack,
       attackProfile := linspace 0 1 (BLOCKSIZE * attack + 1),
       DecayCycles := decay,
       decayProfile := linspace 1 0 (BLOCKSIZE * decay + 1)\<rparr>"

definition INIT_AMPLITUDE :: real where "INIT_AMPLITUDE = 16000"

definition genSinArray :: "real list" where
  "genSinArray =
     map (\<lambda>x. INIT_AMPLITUDE * sin (x / real WAVE_SAMPLES * 2 * pi))
       (linspace 0 (real WAVE_SAMPLES) WAVE_SAMPLES)"

definition genSquareArray :: "real list" where
  "genSquareArray =
     (let LowVal = of_int (np_round (0 - INIT_AMPLITUDE / 2));
          HighVal = of_int (np_round (INIT_AMPLITUDE / 2));
          quarter = nat (np_round (real WAVE_SAMPLES / 4))
      in map (\<lambda>i. if i < quarter then LowVal
                   else if i < quarter * 2 then HighVal
                   else if i < quarter * 3 then HighVal
                   else LowVal) [0..<WAVE_SAMPLES])"

definition genTriArray :: "real list" where
  "genTriArray =
     (let LowVal = of_int (np_round (0 - INIT_AMPLITUDE / 2));
          HighVal = of_int (np_round (INIT_AMPLITUDE / 2));
          half = WAVE_SAMPLES div 2;
          quarter = WAVE_SAMPLES div 4
      in linspace 0 HighVal quarter @ linspace HighVal LowVal half @ linspace LowVal 0 quarter)"

definition genSawArray :: "real list" where
  "genSawArray =
     (let LowVal = of_int (np_round (0 - INIT_AMPLITUDE / 2));
          HighVal = of_int (np_round (INIT_AMPLITUDE / 2));
          half = WAVE_SAMPLES div 2
      in linspace 0 HighVal half @ linspace LowVal 0 half)"

text \<open>\<^verbatim>\<open>data[::n]\<close> and \<^verbatim>\<open>np.tile(part, n)\<close>.\<close>

definition stride :: "nat \<Rightarrow> 'a list \<Rightarrow> 'a list" where
  "stride n xs = map (\<lambda>k. xs ! (k * n)) [0..<(length xs + n - 1) div n]"

definition tile :: "'a list \<Rightarrow> nat \<Rightarrow> 'a list" where
  "tile xs n = concat (replicate n xs)"

text \<open>
  The loop of \<^verbatim>\<open>genHarmonics\<close> over \<^verbatim>\<open>range(numHarmonics)\<close>. The list \<^verbatim>\<open>harmonicArrays\<close>
  kept for plotting is not modelled.
\<close>

fun harmonics_loop :: "real list \<Rightarrow> nat list \<Rightarrow> real list \<Rightarrow> py_error + real list" where
  "harmonics_loop data [] newData = Inr newData"
| "harmonics_loop data (i # rest) newData =
     (let n = i + 2;
          partData = map (\<lambda>x. x / real (n * 2)) (stride n data);
          partData = tile partData n;
          partData = take WAVE_SAMPLES partData
      in case iadd newData partData of
           Inl e \<Rightarrow> Inl e
         | Inr newData' \<Rightarrow> harmonics_loop data rest newData')"

definition genHarmonics :: "nat \<Rightarrow> real list \<Rightarrow> py_error + real list" where
  "genHarmonics numHarmonics data =
     (case harmonics_loop data [0..<numHarmonics] data of
        Inl e \<Rightarrow> Inl e
      | Inr newData \<Rightarrow> Inr (if numHarmonics = 0 then data else newData))"

text \<open>\<^verbatim>\<open>genWaveArray\<close>: the base table of the waveform, the harmonics, the clip.\<close>

definition base_table :: "waveforms \<Rightarrow> real list" where
  "base_table w =
     (case w of
        sin_wf \<Rightarrow> genSinArray
      | tri_wf \<Rightarrow> genTriArray
      | square_wf \<Rightarrow> genSquareArray
      | saw_wf \<Rightarrow> genSawArray
      | _ \<Rightarrow> replicate WAVE_SAMPLES 0)"

definition clip_table :: "real list \<Rightarrow> real list" where
  "clip_table t = map (\<lambda>x. np_clip x (- (2 ^ 15) + 1) (2 ^ 15 - 1)) t"

definition genWaveArray :: "Synth \<Rightarrow> py_error + Synth" where
  "genWaveArray s =
     (case genHarmonics (NumHarmonics s) (base_table (WAVEFORM s)) of
        Inl e \<Rightarrow> Inl e
      | Inr tempWaveForm \<Rightarrow> Inr (s\<lparr>WaveArray := clip_table tempWaveForm\<rparr>))"

subsection \<open>Example states and auxiliary definitions\<close>

text \<open>
  The state that \<^verbatim>\<open>SynthGenerator.__init__\<close> builds for the waveform \<^verbatim>\<open>'square'\<close>: ten
  free slots, attack 5 and decay 10 blocks, wobble rate 15, no harmonics.
\<close>

definition demo_synth :: Synth where
  "demo_synth =
     \<lparr>activeNotes = replicate MAX_NOTES initNull, WAVEFORM = square_wf,
      AttackCycles = 5, DecayCycles = 10,
      attackProfile = linspace 0 1 (BLOCKSIZE * 5 + 1),
      decayProfile = linspace 1 0 (BLOCKSIZE * 10 + 1),
      WaveArray = clip_table (base_table square_wf), VOLUME = 0.2,
      pitchWheelFreq = 0, wobbleIndex = 0, wobbleRate = 15, wobbleMag = 0,
      WOBBLE_PROFILE = map sin (linspace 0 (2 * pi) 15), notesFreqAdjust = 0,
      synth_randLvl = 0, justIntonation = False, justRootPitch = 0,
      justRootFreq = 440 * 2 powr ((60 - 69) / 12), NumHarmonics = 0\<rparr>"

text \<open>A sustained voice for MIDI pitch 57 (A3, 220 Hz) at velocity 0.5, at phase 0.\<close>

definition note_A3 :: Note where
  "note_A3 =
     \<lparr>state = ON, pitch = 57, octave = 4, init_frequency = 220, frequency = 220,
      init_volume = 0.6, volume = Scalar 0.6, phase_index = 0, profile_phase_index = 0,
      randLvl = 0\<rparr>"

text \<open>
  What the loop of \<^verbatim>\<open>addNote\<close> does to a list of slots, as a recursion over the list:
  \<open>nn\<close> is the new note, the flag is \<^verbatim>\<open>noteAdded\<close>. Used to state the effect of the
  loop.
\<close>

fun place_note :: "Note list \<Rightarrow> Note \<Rightarrow> bool \<Rightarrow> Note list" where
  "place_note [] nn added = []"
| "place_note (x # xs) nn added =
     (if state x = NULL
      then (if \<not> added then nn # place_note xs nn True else x # place_note xs nn added)
      else setPhase x 0 # place_note xs nn added)"

text \<open>The same voice one block later: \<^verbatim>\<open>genSoundData\<close> leaves it at phase \<open>53279/75\<close>.\<close>

definition note_A3_next :: Note where
  "note_A3_next = note_A3\<lparr>phase_index := 53279 / 75\<rparr>"

text \<open>A pool with all ten slots sounding.\<close>

definition full_pool :: Synth where
  "full_pool = demo_synth\<lparr>activeNotes := replicate MAX_NOTES note_A3_next\<rparr>"

text \<open>A pool where pitch 57 was triggered twice before its release; eight slots are free.\<close>

definition retrigger_pool :: Synth where
  "retrigger_pool =
     demo_synth\<lparr>activeNotes := [note_A3_next, note_A3_next] @ replicate 8 initNull\<rparr>"

text \<open>The initial state with just intonation switched on.\<close>

definition just_synth :: Synth where
  "just_synth = demo_synth\<lparr>justIntonation := True\<rparr>"

text \<open>
  The partial that one round of the loop of \<^verbatim>\<open>genHarmonics\<close> adds for the stride \<open>n\<close>:
  the base table subsampled at stride \<open>n\<close>, divided by \<open>2 * n\<close>, tiled \<open>n\<close> times and cut
  to \<^verbatim>\<open>WAVE_SAMPLES\<close>.
\<close>

definition harmonic_partial :: "nat \<Rightarrow> real list \<Rightarrow> real list" where
  "harmonic_partial n data =
     take WAVE_SAMPLES (tile (map (\<lambda>x. x / real (n * 2)) (stride n data)) n)"

text \<open>
  The wavetable as the specification describes it: the base table plus, for each
  harmonic index \<open>i\<close> from 1 to \<open>harmonicCount\<close>, the partial of stride \<open>i + 2\<close>.
\<close>

definition spec_harmonics :: "nat \<Rightarrow> real list \<Rightarrow> real list" where
  "spec_harmonics harmonicCount base =
     map (\<lambda>k. base ! k + (\<Sum>i\<leftarrow>[1..<harmonicCount + 1]. harmonic_partial (i + 2) base ! k))
       [0..<WAVE_SAMPLES]"

text \<open>The state of slot \<open>i\<close> after \<open>d\<close> further calls of \<^verbatim>\<open>runStream\<close>.\<close>

definition slot_state_after :: "nat \<Rightarrow> nat \<Rightarrow> Synth \<Rightarrow> py_error + NoteStates" where
  "slot_state_after d i s =
     (case run_blocks d s of Inl e \<Rightarrow> Inl e | Inr s' \<Rightarrow> Inr (state (activeNotes s' ! i)))"

text \<open>A pool whose slot 0 holds a voice for pitch 57 that is still in its first attack block.\<close>

definition attack_pool :: Synth where
  "attack_pool = demo_synth\<lparr>activeNotes := note_A3\<lparr>state := ATTACK\<rparr> # replicate 9 initNull\<rparr>"

text \<open>
  The same pool with attack 5 and decay 2 blocks, the pitch wheel 20 Hz down and the
  wobble on at depth 3.
\<close>

definition bent_pool :: Synth where
  "bent_pool = (setAdsr attack_pool 5 2)\<lparr>pitchWheelFreq := - 20, wobbleMag := 3\<rparr>"

section \<open>Properties\<close>

subsection \<open>Phases of one block\<close>

lemma float_phases_eq:
  "inc \<noteq> 0 \<Longrightarrow> float_phases p inc = Inr (map (\<lambda>i. p + real i * inc) [0..<512])"
  by (simp add: float_phases_def arange_def BLOCKSIZE_def)

text \<open>The cast to \<^verbatim>\<open>uint16\<close> does not change the index modulo 2048.\<close>

lemma unat_uint16_mod:
  "unat ((word_of_int z :: 16 word) mod word_of_nat WAVE_SAMPLES) = nat (z mod 2048)"
proof -
  have "unat ((word_of_int z :: 16 word) mod 2048) = unat (word_of_int z :: 16 word) mod 2048"
    by (simp add: unat_mod)
  also have "\<dots> = nat (z mod 65536) mod 2048"
    by (simp add: unat_eq_nat_uint uint_word_of_int take_bit_eq_mod)
  also have "\<dots> = nat ((z mod 65536) mod 2048)"
    by (simp add: nat_mod_distrib)
  also have "(z mod 65536) mod 2048 = z mod 2048"
    by (rule mod_mod_cancel) simp
  finally show ?thesis by (simp add: WAVE_SAMPLES_def)
qed

lemma wrap_phase_eq: "wrap_phase x = nat (np_round x mod 2048)"
  by (simp add: wrap_phase_def astype_uint16_def unat_uint16_mod)

lemma wrap_phase_less: "wrap_phase x < WAVE_SAMPLES"
proof -
  have "np_round x mod 2048 < 2048" by simp
  then show ?thesis unfolding wrap_phase_eq WAVE_SAMPLES_def by linarith
qed

lemma fmod_bounds: "0 < m \<Longrightarrow> 0 \<le> fmod x m \<and> fmod x m < m"
  using floor_divide_lower [of m x] floor_divide_upper [of m x]
  by (simp add: fmod_def algebra_simps)

lemma np_round_err: "\<bar>real_of_int (np_round x) - x\<bar> \<le> 1 / 2"
  unfolding np_round_def Let_def by (auto split: if_splits)

lemma phase_indices_eq:
  "inc \<noteq> 0 \<Longrightarrow>
   phase_indices p inc = Inr (map (\<lambda>i. wrap_phase (p + real i * inc)) [0..<512])"
  by (simp add: phase_indices_def float_phases_eq comp_def)

lemma last_upt_map: "0 < n \<Longrightarrow> last (map f [0..<n]) = f (n - 1)"
  by (cases n) (simp_all add: last_map)

lemma genSoundData_phase:
  assumes "init_frequency note + notesFreqAdjust s \<noteq> 0"
  shows "phase_index (fst (genSoundData s note)) =
     fmod (real (wrap_phase (phase_index note
              + 511 * ((init_frequency note + notesFreqAdjust s) * STEPS_PER_CYCLE)))
           + (init_frequency note + notesFreqAdjust s) * STEPS_PER_CYCLE) 2048"
proof -
  have inc: "(init_frequency note + notesFreqAdjust s) * STEPS_PER_CYCLE \<noteq> 0"
    using assms by (simp add: STEPS_PER_CYCLE_def WAVE_SAMPLES_def SAMPLE_RATE_def)
  have l: "last (map (\<lambda>i. wrap_phase (p + real i * inc)) [0..<512]) = wrap_phase (p + 511 * inc)"
    for p inc
    by (simp add: last_upt_map)
  show ?thesis
    using inc
    by (simp add: genSoundData_def Let_def phase_indices_eq l WAVE_SAMPLES_def
        split: sum.splits)
qed

lemma length_base_table: "length (base_table w) = WAVE_SAMPLES"
  by (cases w)
     (simp_all add: base_table_def genSinArray_def genTriArray_def genSquareArray_def
        genSawArray_def linspace_def WAVE_SAMPLES_def Let_def)

lemma length_WaveArray_demo: "length (WaveArray demo_synth) = WAVE_SAMPLES"
  by (simp add: demo_synth_def clip_table_def length_base_table)

lemma sample_block_no_IndexError:
  "\<forall>p \<in> set phases. p < length (WaveArray s) \<Longrightarrow>
   sample_block s note phases \<noteq> Inl IndexError"
  by (cases "volume note")
     (auto simp: sample_block_def take_idx_def mul_arrays_def split: sum.splits)

lemma np_round_4797: "np_round (359744 / 75) = 4797"
  by (simp add: np_round_def Let_def)

text \<open>
  Claim C1, as the specification states it: after \<^verbatim>\<open>genSoundData\<close> the stored phase is
  the unrounded phase accumulated through the block plus one increment, modulo
  \<^verbatim>\<open>N_SAMPLES\<close>, that is \<open>(phase + 512 * increment) mod 2048\<close>. The code does not do this:
  for the 220 Hz voice at phase 0 the increment is \<open>704/75\<close>, the last float phase
  \<open>511 * 704/75 = 4796.58...\<close> is rounded to 4797 and wrapped to 701, and
  \<open>701 + 704/75 = 710.38...\<close> is stored, where the continuous phase is \<open>709.97...\<close>.
\<close>

theorem persisted_phase_not_continuous:
  "phase_index (fst (genSoundData demo_synth note_A3)) \<noteq>
     fmod (phase_index note_A3
            + 512 * ((init_frequency note_A3 + notesFreqAdjust demo_synth) * STEPS_PER_CYCLE))
       (real WAVE_SAMPLES)"
  apply (subst genSoundData_phase)
   apply (simp add: demo_synth_def note_A3_def)
  apply (simp add: demo_synth_def note_A3_def STEPS_PER_CYCLE_def WAVE_SAMPLES_def
      SAMPLE_RATE_def wrap_phase_eq np_round_4797 fmod_def)
  done

text \<open>
  Claim C1, amended: for a voice rendering one block at a positive frequency, the phase
  stored for the next block is the rounded and wrapped table index of the last sample
  of the block plus one phase increment, modulo \<^verbatim>\<open>N_SAMPLES\<close>. The rounded index is
  within one half of the float phase it comes from, so the stored phase leaves the
  continuous phase by the rounding error of the last sample of every block.
\<close>

theorem genSoundData_persisted_phase:
  assumes "0 < init_frequency note + notesFreqAdjust s"
  shows "phase_index (fst (genSoundData s note)) =
           fmod (real (nat (np_round (phase_index note
                   + 511 * ((init_frequency note + notesFreqAdjust s) * STEPS_PER_CYCLE)) mod 2048))
                 + (init_frequency note + notesFreqAdjust s) * STEPS_PER_CYCLE)
             (real WAVE_SAMPLES)
       \<and> \<bar>real_of_int (np_round (phase_index note
                   + 511 * ((init_frequency note + notesFreqAdjust s) * STEPS_PER_CYCLE)))
            - (phase_index note
                   + 511 * ((init_frequency note + notesFreqAdjust s) * STEPS_PER_CYCLE))\<bar> \<le> 1 / 2"
proof (rule conjI)
  show "phase_index (fst (genSoundData s note)) =
           fmod (real (nat (np_round (phase_index note
                   + 511 * ((init_frequency note + notesFreqAdjust s) * STEPS_PER_CYCLE)) mod 2048))
                 + (init_frequency note + notesFreqAdjust s) * STEPS_PER_CYCLE)
             (real WAVE_SAMPLES)"
    using assms by (simp add: genSoundData_phase wrap_phase_eq WAVE_SAMPLES_def)
qed (rule np_round_err)

text \<open>Witness for C1: the 220 Hz voice at phase 0 stores \<open>701 + 704/75 = 53279/75\<close>.\<close>

theorem genSoundData_persisted_phase_witness:
  "0 < init_frequency note_A3 + notesFreqAdjust demo_synth
   \<and> phase_index (fst (genSoundData demo_synth note_A3)) = 53279 / 75"
proof -
  have h: "0 < init_frequency note_A3 + notesFreqAdjust demo_synth"
    by (simp add: note_A3_def demo_synth_def)
  have "phase_index (fst (genSoundData demo_synth note_A3)) = 53279 / 75"
    using genSoundData_persisted_phase [OF h]
    by (simp add: demo_synth_def note_A3_def STEPS_PER_CYCLE_def WAVE_SAMPLES_def
        SAMPLE_RATE_def np_round_4797 fmod_def)
  with h show ?thesis by simp
qed

text \<open>
  Claim C2: for a voice with a non-negative phase and a positive frequency, every phase
  index that \<^verbatim>\<open>genSoundData\<close> uses to sample the wavetable during one block lies in
  \<open>[0, N_SAMPLES)\<close>, and so does the phase stored after the block; indexing a wavetable of
  \<^verbatim>\<open>N_SAMPLES\<close> entries with them never raises \<^verbatim>\<open>IndexError\<close>.
\<close>

theorem genSoundData_phases_in_bounds:
  assumes "0 \<le> phase_index note"
    and "0 < init_frequency note + notesFreqAdjust s"
    and "length (WaveArray s) = WAVE_SAMPLES"
  shows "(\<exists>phases.
            phase_indices (phase_index note)
              ((init_frequency note + notesFreqAdjust s) * STEPS_PER_CYCLE) = Inr phases
          \<and> length phases = BLOCKSIZE
          \<and> (\<forall>p \<in> set phases. p < WAVE_SAMPLES))
       \<and> 0 \<le> phase_index (fst (genSoundData s note))
       \<and> phase_index (fst (genSoundData s note)) < real WAVE_SAMPLES
       \<and> snd (genSoundData s note) \<noteq> Inl IndexError"
proof -
  let ?inc = "(init_frequency note + notesFreqAdjust s) * STEPS_PER_CYCLE"
  let ?phases = "map (\<lambda>i. wrap_phase (phase_index note + real i * ?inc)) [0..<512]"
  have inc: "?inc \<noteq> 0"
    using assms(2) by (simp add: STEPS_PER_CYCLE_def WAVE_SAMPLES_def SAMPLE_RATE_def)
  have ph: "phase_indices (phase_index note) ?inc = Inr ?phases"
    using inc by (rule phase_indices_eq)
  have bound: "\<forall>p \<in> set ?phases. p < WAVE_SAMPLES"
    by (auto simp: wrap_phase_less)
  have first: "\<exists>phases. phase_indices (phase_index note) ?inc = Inr phases
          \<and> length phases = BLOCKSIZE \<and> (\<forall>p \<in> set phases. p < WAVE_SAMPLES)"
    using ph bound by (simp add: BLOCKSIZE_def)
  have "phase_index (fst (genSoundData s note)) =
      fmod (real (wrap_phase (phase_index note + 511 * ?inc)) + ?inc) 2048"
    using assms(2) by (simp add: genSoundData_phase)
  moreover have "0 \<le> fmod x 2048 \<and> fmod x 2048 < 2048" for x
    using fmod_bounds [of 2048 x] by simp
  ultimately have range: "0 \<le> phase_index (fst (genSoundData s note))
       \<and> phase_index (fst (genSoundData s note)) < real WAVE_SAMPLES"
    by (simp add: WAVE_SAMPLES_def)
  have "snd (genSoundData s note) \<noteq> Inl IndexError"
    using bound assms(3) sample_block_no_IndexError [of ?phases s]
    by (simp add: genSoundData_def Let_def ph)
  with first range show ?thesis by blast
qed

text \<open>Witness for C2: the 220 Hz voice at phase 0 on the square wavetable.\<close>

theorem genSoundData_phases_in_bounds_witness:
  "0 \<le> phase_index note_A3
   \<and> 0 < init_frequency note_A3 + notesFreqAdjust demo_synth
   \<and> length (WaveArray demo_synth) = WAVE_SAMPLES
   \<and> (\<exists>phases.
            phase_indices (phase_index note_A3)
              ((init_frequency note_A3 + notesFreqAdjust demo_synth) * STEPS_PER_CYCLE) = Inr phases
          \<and> length phases = BLOCKSIZE
          \<and> (\<forall>p \<in> set phases. p < WAVE_SAMPLES))
   \<and> 0 \<le> phase_index (fst (genSoundData demo_synth note_A3))
   \<and> phase_index (fst (genSoundData demo_synth note_A3)) < real WAVE_SAMPLES
   \<and> snd (genSoundData demo_synth note_A3) \<noteq> Inl IndexError"
proof -
  have h1: "0 \<le> phase_index note_A3" by (simp add: note_A3_def)
  have h2: "0 < init_frequency note_A3 + notesFreqAdjust demo_synth"
    by (simp add: note_A3_def demo_synth_def)
  show ?thesis
    using h1 h2 length_WaveArray_demo
      genSoundData_phases_in_bounds [OF h1 h2 length_WaveArray_demo]
    by blast
qed

subsection \<open>The voice pool\<close>

lemma newNote_activeNotes [simp]:
  "newNote (s\<lparr>activeNotes := xs\<rparr>) p vel r1 r2 = newNote s p vel r1 r2"
  by (simp add: newNote_def split: sum.splits)

lemma upd_take_drop:
  "k < length xs \<Longrightarrow> take (Suc k) (xs[k := y]) = take k xs @ [y]"
  by (simp add: take_Suc_conv_app_nth)

lemma addNote_loop_upt:
  assumes "newNote s p vel r1 r2 = Inr nn"
    and "k \<le> length (activeNotes s)"
  shows "addNote_loop s p vel r1 r2 [k..<length (activeNotes s)] added =
           (s\<lparr>activeNotes := take k (activeNotes s) @ place_note (drop k (activeNotes s)) nn added\<rparr>, None)"
  using assms
proof (induction "length (activeNotes s) - k" arbitrary: s k added)
  case 0
  then show ?case by simp
next
  case (Suc d)
  let ?xs = "activeNotes s"
  from Suc.hyps(2) have k: "k < length ?xs" by simp
  then have upt: "[k..<length ?xs] = k # [Suc k..<length ?xs]"
    by (simp add: upt_conv_Cons)
  have dr: "drop k ?xs = ?xs ! k # drop (Suc k) ?xs"
    using k by (simp add: Cons_nth_drop_Suc)
  have IH: "addNote_loop (s\<lparr>activeNotes := ?xs[k := y]\<rparr>) p vel r1 r2 [Suc k..<length ?xs] b =
      (s\<lparr>activeNotes := take k ?xs @ y # place_note (drop (Suc k) ?xs) nn b\<rparr>, None)" for y b
  proof -
    have "addNote_loop (s\<lparr>activeNotes := ?xs[k := y]\<rparr>) p vel r1 r2
            [Suc k..<length (activeNotes (s\<lparr>activeNotes := ?xs[k := y]\<rparr>))] b =
          (s\<lparr>activeNotes := ?xs[k := y]\<rparr>\<lparr>activeNotes :=
              take (Suc k) (activeNotes (s\<lparr>activeNotes := ?xs[k := y]\<rparr>))
              @ place_note (drop (Suc k) (activeNotes (s\<lparr>activeNotes := ?xs[k := y]\<rparr>))) nn b\<rparr>, None)"
      using Suc.hyps(2) Suc.prems k
      by (intro Suc.hyps(1)) simp_all
    then show ?thesis using k by (simp add: upd_take_drop)
  qed
  have IH0: "addNote_loop s p vel r1 r2 [Suc k..<length ?xs] b =
      (s\<lparr>activeNotes := take k ?xs @ ?xs ! k # place_note (drop (Suc k) ?xs) nn b\<rparr>, None)" for b
    using IH [of "?xs ! k" b] by simp
  show ?case
    by (simp only: upt addNote_loop.simps dr place_note.simps)
       (simp add: IH IH0 Suc.prems(1))
qed

lemma addNote_loop_full:
  assumes "\<forall>j. k \<le> j \<and> j < length (activeNotes s) \<longrightarrow> state (activeNotes s ! j) \<noteq> NULL"
    and "k \<le> length (activeNotes s)"
  shows "addNote_loop s p vel r1 r2 [k..<length (activeNotes s)] added =
           (s\<lparr>activeNotes := take k (activeNotes s)
                @ map (\<lambda>note. setPhase note 0) (drop k (activeNotes s))\<rparr>, None)"
  using assms
proof (induction "length (activeNotes s) - k" arbitrary: s k)
  case 0
  then show ?case by simp
next
  case (Suc d)
  let ?xs = "activeNotes s"
  from Suc.hyps(2) have k: "k < length ?xs" by simp
  then have upt: "[k..<length ?xs] = k # [Suc k..<length ?xs]"
    by (simp add: upt_conv_Cons)
  have dr: "drop k ?xs = ?xs ! k # drop (Suc k) ?xs"
    using k by (simp add: Cons_nth_drop_Suc)
  have occ: "state (?xs ! k) \<noteq> NULL" using Suc.prems(1) k by simp
  let ?s' = "s\<lparr>activeNotes := ?xs[k := setPhase (?xs ! k) 0]\<rparr>"
  have "addNote_loop ?s' p vel r1 r2 [Suc k..<length (activeNotes ?s')] added =
          (?s'\<lparr>activeNotes := take (Suc k) (activeNotes ?s')
              @ map (\<lambda>note. setPhase note 0) (drop (Suc k) (activeNotes ?s'))\<rparr>, None)"
    using Suc.hyps(2) Suc.prems k
    by (intro Suc.hyps(1)) (simp_all add: nth_list_update)
  then have IH: "addNote_loop ?s' p vel r1 r2 [Suc k..<length ?xs] added =
      (s\<lparr>activeNotes := take k ?xs @ setPhase (?xs ! k) 0
          # map (\<lambda>note. setPhase note 0) (drop (Suc k) ?xs)\<rparr>, None)"
    using k by (simp add: upd_take_drop)
  show ?case
    by (simp only: upt addNote_loop.simps dr list.map) (simp add: IH occ)
qed

lemma length_decay_loop: "length (decay_loop p xs) = length xs"
  by (induction xs) simp_all

lemma nth_decay_loop:
  "i < length xs \<Longrightarrow>
   decay_loop p xs ! i =
     (if state (xs ! i) \<noteq> NULL \<and> pitch (xs ! i) = p then (xs ! i)\<lparr>state := DECAY\<rparr> else xs ! i)"
proof (induction xs arbitrary: i)
  case Nil
  then show ?case by simp
next
  case (Cons x xs)
  then show ?case by (cases i) simp_all
qed

text \<open>
  Claim C3, as the specification states it: when several sounding voices share a pitch,
  \<^verbatim>\<open>startDecayNote\<close> moves only the first of them in slot order to \<^verbatim>\<open>DECAY\<close> and leaves
  the state of the others unchanged. The code does not do this: with pitch 57 sounding
  in slots 0 and 1, both voices are in \<^verbatim>\<open>DECAY\<close> afterwards.
\<close>

theorem noteOff_releases_second_match:
  "state (activeNotes retrigger_pool ! 0) = ON \<and> pitch (activeNotes retrigger_pool ! 0) = 57
   \<and> state (activeNotes retrigger_pool ! 1) = ON \<and> pitch (activeNotes retrigger_pool ! 1) = 57
   \<and> state (activeNotes (startDecayNote retrigger_pool 57) ! 0) = DECAY
   \<and> state (activeNotes (startDecayNote retrigger_pool 57) ! 1) = DECAY"
  by (simp add: retrigger_pool_def startDecayNote_def note_A3_next_def note_A3_def)

text \<open>
  Claim C3, amended: \<^verbatim>\<open>startDecayNote(pitch)\<close> moves every voice that is not
  \<^verbatim>\<open>NULL\<close> and has that pitch to \<^verbatim>\<open>DECAY\<close>, changes nothing else of these voices, and
  leaves every other slot as it is.
\<close>

theorem startDecayNote_all_matches:
  "length (activeNotes (startDecayNote s p)) = length (activeNotes s)
   \<and> (\<forall>i < length (activeNotes s).
        activeNotes (startDecayNote s p) ! i =
          (if state (activeNotes s ! i) \<noteq> NULL \<and> pitch (activeNotes s ! i) = p
           then (activeNotes s ! i)\<lparr>state := DECAY\<rparr>
           else activeNotes s ! i))"
  by (simp add: startDecayNote_def length_decay_loop nth_decay_loop)

text \<open>Witness for C3: slot 1 (second match) goes to \<^verbatim>\<open>DECAY\<close>, the free slot 2 stays.\<close>

theorem startDecayNote_all_matches_witness:
  "(1::nat) < length (activeNotes retrigger_pool)
   \<and> activeNotes (startDecayNote retrigger_pool 57) ! 1 = note_A3_next\<lparr>state := DECAY\<rparr>
   \<and> (2::nat) < length (activeNotes retrigger_pool)
   \<and> activeNotes (startDecayNote retrigger_pool 57) ! 2 = initNull"
proof -
  have l1: "1 < length (activeNotes retrigger_pool)"
    and l2: "2 < length (activeNotes retrigger_pool)"
    by (simp_all add: retrigger_pool_def)
  have a: "activeNotes retrigger_pool ! 1 = note_A3_next"
    and b: "activeNotes retrigger_pool ! 2 = initNull"
    by (simp_all add: retrigger_pool_def)
  have c: "state note_A3_next = ON" "pitch note_A3_next = 57" "state initNull = NULL"
    by (simp_all add: note_A3_next_def note_A3_def initNull_def)
  note all = startDecayNote_all_matches [of retrigger_pool 57, THEN conjunct2, rule_format]
  have "activeNotes (startDecayNote retrigger_pool 57) ! 1 = note_A3_next\<lparr>state := DECAY\<rparr>"
    using all [OF l1, unfolded a] by (simp add: c)
  moreover have "activeNotes (startDecayNote retrigger_pool 57) ! 2 = initNull"
    using all [OF l2, unfolded b] by (simp add: c)
  ultimately show ?thesis using l1 l2 by simp
qed

lemma addNote_full:
  assumes "\<forall>note \<in> set (activeNotes s). state note \<noteq> NULL"
  shows "addNote s p vel r1 r2 =
           (s\<lparr>activeNotes := map (\<lambda>note. note\<lparr>phase_index := 0\<rparr>) (activeNotes s)\<rparr>, None)"
proof -
  have "\<forall>j. 0 \<le> j \<and> j < length (activeNotes s) \<longrightarrow> state (activeNotes s ! j) \<noteq> NULL"
    using assms by simp
  from addNote_loop_full [OF this, of p vel r1 r2 False]
  show ?thesis by (simp add: addNote_def setPhase_def)
qed

lemma full_pool_occupied: "\<forall>note \<in> set (activeNotes full_pool). state note \<noteq> NULL"
  by (simp add: full_pool_def note_A3_next_def note_A3_def)

text \<open>
  Claim C4, as the specification states it: a note-on with all slots occupied leaves the
  whole pool state unchanged. The code does not do this: the \<^verbatim>\<open>else\<close> branch of the loop
  of \<^verbatim>\<open>addNote\<close> calls \<^verbatim>\<open>setPhase(0)\<close> on every occupied slot, so the pool of ten voices
  at phase \<open>53279/75\<close> is changed.
\<close>

theorem addNote_full_pool_changes_phase:
  "NULL \<notin> set (map state (activeNotes full_pool))
   \<and> fst (addNote full_pool 60 (1 / 2) 0 0) \<noteq> full_pool"
proof -
  have "activeNotes (fst (addNote full_pool 60 (1 / 2) 0 0)) \<noteq> activeNotes full_pool"
    by (simp add: addNote_full [OF full_pool_occupied])
       (simp add: full_pool_def MAX_NOTES_def note_A3_next_def note_A3_def)
  then have "fst (addNote full_pool 60 (1 / 2) 0 0) \<noteq> full_pool" by auto
  moreover have "NULL \<notin> set (map state (activeNotes full_pool))"
    using full_pool_occupied by auto
  ultimately show ?thesis by blast
qed

text \<open>
  Claim C4, amended: a note-on with all slots occupied adds no voice, raises nothing and
  leaves every field of every voice and of the synthesizer unchanged, except that the
  phase of every voice is set to 0.
\<close>

theorem addNote_full_pool:
  assumes "\<forall>note \<in> set (activeNotes s). state note \<noteq> NULL"
  shows "addNote s p vel r1 r2 =
           (s\<lparr>activeNotes := map (\<lambda>note. note\<lparr>phase_index := 0\<rparr>) (activeNotes s)\<rparr>, None)"
  using assms by (rule addNote_full)

text \<open>Witness for C4: the full pool comes back with all ten voices at phase 0.\<close>

theorem addNote_full_pool_witness:
  "NULL \<notin> set (map state (activeNotes full_pool))
   \<and> addNote full_pool 60 (1 / 2) 0 0
       = (demo_synth\<lparr>activeNotes := replicate MAX_NOTES note_A3\<rparr>, None)"
proof -
  have "NULL \<notin> set (map state (activeNotes full_pool))"
    using full_pool_occupied by auto
  moreover have "addNote full_pool 60 (1 / 2) 0 0
       = (demo_synth\<lparr>activeNotes := replicate MAX_NOTES note_A3\<rparr>, None)"
    using addNote_full_pool [OF full_pool_occupied, of 60 "1 / 2" 0 0]
    by (simp add: full_pool_def note_A3_next_def note_A3_def)
  ultimately show ?thesis by blast
qed

lemma length_place_note: "length (place_note xs nn b) = length xs"
  by (induction xs nn b rule: place_note.induct) simp_all

lemma place_note_active:
  "i < length xs \<Longrightarrow> state (xs ! i) \<noteq> NULL \<Longrightarrow> place_note xs nn b ! i = setPhase (xs ! i) 0"
proof (induction xs nn b arbitrary: i rule: place_note.induct)
  case (1 nn added)
  then show ?case by simp
next
  case (2 x xs nn added)
  then show ?case by (cases i) auto
qed

lemma place_note_first_free:
  "k < length xs \<Longrightarrow> state (xs ! k) = NULL \<Longrightarrow> \<forall>j<k. state (xs ! j) \<noteq> NULL \<Longrightarrow>
   place_note xs nn False ! k = nn"
proof (induction xs arbitrary: k)
  case Nil
  then show ?case by simp
next
  case (Cons x xs)
  show ?case
  proof (cases k)
    case 0
    with Cons.prems show ?thesis by simp
  next
    case (Suc k')
    from Cons.prems(3) Suc have x: "state x \<noteq> NULL" by auto
    from Cons.prems(3) Suc have "\<forall>j<k'. state (xs ! j) \<noteq> NULL" by auto
    with Cons.IH [of k'] Cons.prems(1,2) Suc x show ?thesis by simp
  qed
qed

lemma py_getitem_in_range:
  "0 \<le> k \<Longrightarrow> k < int (length xs) \<Longrightarrow> py_getitem xs k = Inr (xs ! nat k)"
  by (simp add: py_getitem_def)

lemma py_getitem_ok:
  "- int (length xs) \<le> k \<Longrightarrow> k < int (length xs) \<Longrightarrow> \<exists>v. py_getitem xs k = Inr v"
  by (simp add: py_getitem_def)

lemma midi_octave: "0 \<le> p \<Longrightarrow> p \<le> 127 \<Longrightarrow> 0 \<le> p div 12 \<and> p div 12 < 11" for p :: int
  by presburger

lemma Note_init_ok:
  assumes "0 \<le> p" "p \<le> 127"
  shows "\<exists>note. Note_init p vel ATTACK rl ph r = Inr note \<and> state note = ATTACK
           \<and> pitch note = p \<and> octave note = p div 12"
proof -
  from midi_octave [OF assms] have o: "0 \<le> p div 12" "p div 12 < 11" by simp_all
  have 1: "py_getitem freqRandomAdjust (p div 12) = Inr (freqRandomAdjust ! nat (p div 12))"
    using o by (intro py_getitem_in_range) (simp_all add: freqRandomAdjust_def)
  have 2: "py_getitem freqVolumeAdjust (p div 12) = Inr (freqVolumeAdjust ! nat (p div 12))"
    using o by (intro py_getitem_in_range) (simp_all add: freqVolumeAdjust_def)
  show ?thesis
    by (simp add: Note_init_def Let_def randFreqAdjust_def initNull_def 1 2)
qed

lemma setJustIntonation_ok:
  assumes "0 \<le> octave note" "octave note < 11" "0 \<le> rootPitch" "rootPitch \<le> 11"
  shows "\<exists>note'. setJustIntonation note rootFreq rootPitch r = Inr note'
           \<and> state note' = state note \<and> pitch note' = pitch note"
proof -
  have "- 12 \<le> pitch note mod 12 - rootPitch" "pitch note mod 12 - rootPitch < 12"
    using assms(3,4) by presburger+
  then obtain ratio where 1: "py_getitem justRatios (pitch note mod 12 - rootPitch) = Inr ratio"
    using py_getitem_ok [of justRatios "pitch note mod 12 - rootPitch"]
    by (auto simp: justRatios_def)
  have 2: "py_getitem freqRandomAdjust (octave note) = Inr (freqRandomAdjust ! nat (octave note))"
    using assms(1,2) by (intro py_getitem_in_range) (simp_all add: freqRandomAdjust_def)
  show ?thesis
    by (simp add: setJustIntonation_def Let_def randFreqAdjust_def 1 2)
qed

lemma newNote_ok:
  assumes "0 \<le> p" "p \<le> 127"
    and "justIntonation s \<longrightarrow> 0 \<le> justRootPitch s \<and> justRootPitch s \<le> 11"
  shows "\<exists>note. newNote s p vel r1 r2 = Inr note \<and> state note = ATTACK \<and> pitch note = p
           \<and> phase_index note = real WAVE_SAMPLES / pi"
proof -
  from Note_init_ok [OF assms(1,2)] obtain n0 where
    n0: "Note_init p vel ATTACK (synth_randLvl s) 0 r1 = Inr n0" "state n0 = ATTACK"
        "pitch n0 = p" "octave n0 = p div 12"
    by blast
  show ?thesis
  proof (cases "justIntonation s")
    case False
    then show ?thesis using n0 by (simp add: newNote_def setPhase_def)
  next
    case True
    from midi_octave [OF assms(1,2)] n0(4) have "0 \<le> octave n0" "octave n0 < 11" by simp_all
    from setJustIntonation_ok [OF this, of "justRootPitch s" "justRootFreq s" r2] assms(3) True
    obtain n1 where "setJustIntonation n0 (justRootFreq s) (justRootPitch s) r2 = Inr n1"
      "state n1 = state n0" "pitch n1 = pitch n0" by blast
    then show ?thesis using n0 True by (simp add: newNote_def setPhase_def)
  qed
qed

text \<open>
  Claim C10: for a MIDI pitch (0 to 127; with just intonation, a root pitch from 0 to 11)
  \<^verbatim>\<open>addNote\<close> returns normally, sets the phase of every voice that was not \<^verbatim>\<open>NULL\<close> to 0
  and changes nothing else of it, also when a free slot exists; the new voice is put
  into the first free slot, in state \<^verbatim>\<open>ATTACK\<close>, at phase \<^verbatim>\<open>WAVE_SAMPLES / pi\<close> whatever
  the other slots hold.
\<close>

theorem addNote_resets_active_phases:
  assumes "0 \<le> p" and "p \<le> 127"
    and "justIntonation s \<longrightarrow> 0 \<le> justRootPitch s \<and> justRootPitch s \<le> 11"
  shows "\<exists>s'. addNote s p vel r1 r2 = (s', None)
           \<and> length (activeNotes s') = length (activeNotes s)
           \<and> (\<forall>i < length (activeNotes s). state (activeNotes s ! i) \<noteq> NULL \<longrightarrow>
                 activeNotes s' ! i = (activeNotes s ! i)\<lparr>phase_index := 0\<rparr>)
           \<and> (\<forall>k < length (activeNotes s).
                 state (activeNotes s ! k) = NULL \<and> (\<forall>j<k. state (activeNotes s ! j) \<noteq> NULL) \<longrightarrow>
                 state (activeNotes s' ! k) = ATTACK \<and> pitch (activeNotes s' ! k) = p
                 \<and> phase_index (activeNotes s' ! k) = real WAVE_SAMPLES / pi)"
proof -
  from newNote_ok [OF assms] obtain nn where
    nn: "newNote s p vel r1 r2 = Inr nn" "state nn = ATTACK" "pitch nn = p"
        "phase_index nn = real WAVE_SAMPLES / pi"
    by blast
  let ?s' = "s\<lparr>activeNotes := place_note (activeNotes s) nn False\<rparr>"
  have "addNote s p vel r1 r2 = (?s', None)"
    using addNote_loop_upt [OF nn(1), of 0 False] by (simp add: addNote_def)
  moreover have "length (activeNotes ?s') = length (activeNotes s)"
    by (simp add: length_place_note)
  moreover have "\<forall>i < length (activeNotes s). state (activeNotes s ! i) \<noteq> NULL \<longrightarrow>
                 activeNotes ?s' ! i = (activeNotes s ! i)\<lparr>phase_index := 0\<rparr>"
    by (simp add: place_note_active setPhase_def)
  moreover have "\<forall>k < length (activeNotes s).
                 state (activeNotes s ! k) = NULL \<and> (\<forall>j<k. state (activeNotes s ! j) \<noteq> NULL) \<longrightarrow>
                 state (activeNotes ?s' ! k) = ATTACK \<and> pitch (activeNotes ?s' ! k) = p
                 \<and> phase_index (activeNotes ?s' ! k) = real WAVE_SAMPLES / pi"
    by (simp add: place_note_first_free nn)
  ultimately show ?thesis by blast
qed

text \<open>
  Witness for C10: pitch 60 added to the pool with two sounding voices and a free
  slot 2; the voice of slot 1 goes from phase \<open>53279/75\<close> to 0, the new voice is at
  \<open>2048 / pi\<close>.
\<close>

theorem addNote_resets_active_phases_witness:
  "(0::int) \<le> 60 \<and> (60::int) \<le> 127
   \<and> \<not> justIntonation retrigger_pool
   \<and> phase_index (activeNotes retrigger_pool ! 1) = 53279 / 75
   \<and> (\<exists>s'. addNote retrigger_pool 60 (1 / 2) 0 0 = (s', None)
         \<and> phase_index (activeNotes s' ! 1) = 0
         \<and> state (activeNotes s' ! 2) = ATTACK
         \<and> pitch (activeNotes s' ! 2) = 60
         \<and> phase_index (activeNotes s' ! 2) = 2048 / pi)"
proof -
  have h3: "justIntonation retrigger_pool \<longrightarrow>
        0 \<le> justRootPitch retrigger_pool \<and> justRootPitch retrigger_pool \<le> 11"
    by (simp add: retrigger_pool_def demo_synth_def)
  have l1: "1 < length (activeNotes retrigger_pool)"
    and l2: "2 < length (activeNotes retrigger_pool)"
    by (simp_all add: retrigger_pool_def)
  have a: "activeNotes retrigger_pool ! 1 = note_A3_next"
    and b: "activeNotes retrigger_pool ! 2 = initNull"
    by (simp_all add: retrigger_pool_def)
  have free: "state (activeNotes retrigger_pool ! 2) = NULL
      \<and> (\<forall>j<2. state (activeNotes retrigger_pool ! j) \<noteq> NULL)"
    by (simp add: retrigger_pool_def initNull_def note_A3_next_def note_A3_def
        less_Suc_eq numeral_2_eq_2)
  have act: "state (activeNotes retrigger_pool ! 1) \<noteq> NULL"
    unfolding a by (simp add: note_A3_next_def note_A3_def)
  from addNote_resets_active_phases [of 60 retrigger_pool "1 / 2" 0 0, OF _ _ h3]
  obtain s' where s': "addNote retrigger_pool 60 (1 / 2) 0 0 = (s', None)"
    and r: "\<forall>i < length (activeNotes retrigger_pool). state (activeNotes retrigger_pool ! i) \<noteq> NULL \<longrightarrow>
                 activeNotes s' ! i = (activeNotes retrigger_pool ! i)\<lparr>phase_index := 0\<rparr>"
    and n: "\<forall>k < length (activeNotes retrigger_pool).
                 state (activeNotes retrigger_pool ! k) = NULL
                 \<and> (\<forall>j<k. state (activeNotes retrigger_pool ! j) \<noteq> NULL) \<longrightarrow>
                 state (activeNotes s' ! k) = ATTACK \<and> pitch (activeNotes s' ! k) = 60
                 \<and> phase_index (activeNotes s' ! k) = real WAVE_SAMPLES / pi"
    by auto
  from r [rule_format, OF l1 act] have "phase_index (activeNotes s' ! 1) = 0" by simp
  moreover from n [rule_format, OF l2 free]
  have "state (activeNotes s' ! 2) = ATTACK \<and> pitch (activeNotes s' ! 2) = 60
      \<and> phase_index (activeNotes s' ! 2) = 2048 / pi"
    by (simp add: WAVE_SAMPLES_def)
  moreover have "phase_index (activeNotes retrigger_pool ! 1) = 53279 / 75"
    unfolding a by (simp add: note_A3_next_def)
  moreover have "\<not> justIntonation retrigger_pool"
    by (simp add: retrigger_pool_def demo_synth_def)
  ultimately show ?thesis using s' by simp
qed

subsection \<open>Tuning\<close>

lemma randFreqAdjust_zero:
  "0 \<le> octave note \<Longrightarrow> octave note < 11 \<Longrightarrow> randLvl note = 0 \<Longrightarrow> randFreqAdjust note r = Inr 0"
  by (simp add: randFreqAdjust_def py_getitem_in_range freqRandomAdjust_def)

lemma Note_init_equal_temperament:
  assumes "0 \<le> p" "p \<le> 127"
  shows "Note_init p vel ATTACK 0 ph r =
     Inr (initNull\<lparr>randLvl := 0, state := ATTACK, pitch := p, octave := p div 12,
            init_frequency := 440 * 2 powr ((real_of_int p - 69) / 12),
            frequency := 440 * 2 powr ((real_of_int p - 69) / 12),
            init_volume := vel * freqVolumeAdjust ! nat (p div 12),
            volume := Scalar (vel * freqVolumeAdjust ! nat (p div 12)),
            phase_index := ph, profile_phase_index := 0\<rparr>)"
proof -
  from midi_octave [OF assms] have o: "0 \<le> p div 12" "p div 12 < 11" by simp_all
  have 1: "randFreqAdjust (initNull\<lparr>randLvl := 0, state := ATTACK, pitch := p, octave := p div 12\<rparr>) r = Inr 0"
    using o by (intro randFreqAdjust_zero) simp_all
  have 2: "py_getitem freqVolumeAdjust (p div 12) = Inr (freqVolumeAdjust ! nat (p div 12))"
    using o by (intro py_getitem_in_range) (simp_all add: freqVolumeAdjust_def)
  show ?thesis
    by (simp add: Note_init_def Let_def 1 2)
qed

lemma top_pitch_pow6: "(2 powr (29 / 6)) ^ 6 = (2 ^ 29 :: real)"
proof -
  have "(2 powr (29 / 6)) ^ 6 = (2::real) powr (29 / 6 * 6)" by (simp add: powr_power)
  also have "\<dots> = 2 powr (real 29)" by simp
  also have "\<dots> = 2 ^ 29" by (rule powr_realpow) simp
  finally show ?thesis .
qed

lemma midi_frequency_bound:
  assumes "p \<le> 127"
  shows "0 < 440 * 2 powr ((real_of_int p - 69) / 12)
       \<and> 440 * 2 powr ((real_of_int p - 69) / 12) < (12545 :: real)"
proof -
  have "(real_of_int p - 69) / 12 \<le> 29 / 6" using assms by simp
  then have le: "(2::real) powr ((real_of_int p - 69) / 12) \<le> 2 powr (29 / 6)"
    by (rule powr_mono) simp
  have "(2 powr (29 / 6)) ^ 6 < (2851 / 100 :: real) ^ 6"
    unfolding top_pitch_pow6 by (simp add: power_divide)
  then have "2 powr (29 / 6) < (2851 / 100 :: real)"
    by (rule power_less_imp_less_base) simp
  with le have "(2::real) powr ((real_of_int p - 69) / 12) < 2851 / 100" by linarith
  then show ?thesis by simp
qed

lemma float32_within_tolerance:
  assumes "p \<le> 127"
    and "\<bar>y - 440 * 2 powr ((real_of_int p - 69) / 12)\<bar>
           \<le> \<bar>440 * 2 powr ((real_of_int p - 69) / 12)\<bar> / 2 ^ 24"
  shows "\<bar>y - 440 * 2 powr ((real_of_int p - 69) / 12)\<bar> < 1 / 1000"
proof -
  let ?f = "440 * 2 powr ((real_of_int p - 69) / 12) :: real"
  from midi_frequency_bound [OF assms(1)] have f: "0 < ?f" "?f < 12545" by simp_all
  then have "\<bar>?f\<bar> / 2 ^ 24 < 12545 / 2 ^ 24" by (simp add: divide_strict_right_mono)
  also have "\<dots> < (1 / 1000 :: real)" by simp
  finally show ?thesis using assms(2) by linarith
qed

text \<open>
  Claim C7: for every pitch from 0 to 127, in equal temperament and with detune level 0,
  the note that \<^verbatim>\<open>addNote\<close> creates has the base frequency
  \<open>440 * 2 ^ ((pitch - 69) / 12)\<close>, within \<open>1e-3\<close>. In the model of floats as reals the
  two are equal; and every value within the relative rounding error of a \<^verbatim>\<open>float32\<close>
  (\<open>2 ^ -24\<close>) of the frequency is within \<open>1e-3\<close> of the formula, since the frequency
  stays below 12545 Hz.
\<close>

theorem equal_temperament_frequency:
  assumes "0 \<le> p" and "p \<le> 127"
    and "\<not> justIntonation s" and "synth_randLvl s = 0"
  shows "\<exists>note. newNote s p vel r1 r2 = Inr note
           \<and> init_frequency note = 440 * 2 powr ((real_of_int p - 69) / 12)
           \<and> (\<forall>y. \<bar>y - init_frequency note\<bar> \<le> \<bar>init_frequency note\<bar> / 2 ^ 24 \<longrightarrow>
                  \<bar>y - 440 * 2 powr ((real_of_int p - 69) / 12)\<bar> < 1 / 1000)"
proof -
  let ?f = "440 * 2 powr ((real_of_int p - 69) / 12) :: real"
  from assms obtain nt where n: "newNote s p vel r1 r2 = Inr nt" "init_frequency nt = ?f"
    by (simp add: newNote_def Note_init_equal_temperament setPhase_def)
  have "\<forall>y. \<bar>y - init_frequency nt\<bar> \<le> \<bar>init_frequency nt\<bar> / 2 ^ 24 \<longrightarrow>
                  \<bar>y - ?f\<bar> < 1 / 1000"
    unfolding n(2) using float32_within_tolerance [OF assms(2)] by blast
  with n show ?thesis by blast
qed

text \<open>Witness for C7: pitch 69 gives 440 Hz.\<close>

theorem equal_temperament_frequency_witness:
  "(0::int) \<le> 69 \<and> (69::int) \<le> 127 \<and> \<not> justIntonation demo_synth
   \<and> synth_randLvl demo_synth = 0
   \<and> (\<exists>note. newNote demo_synth 69 (1 / 2) 0 0 = Inr note \<and> init_frequency note = 440)"
proof -
  have h: "\<not> justIntonation demo_synth" "synth_randLvl demo_synth = 0"
    by (simp_all add: demo_synth_def)
  from equal_temperament_frequency [of 69 demo_synth "1 / 2" 0 0, OF _ _ h]
  show ?thesis using h by auto
qed

lemma root_C4_pow4: "(2 powr (- 3 / 4)) ^ 4 = (1 / 8 :: real)"
proof -
  have "(2 powr (- 3 / 4)) ^ 4 = (2::real) powr (- 3 / 4 * 4)"
    by (simp add: powr_power)
  also have "\<dots> = 2 powr (- 3)" by simp
  also have "\<dots> = 1 / 8" by (simp add: powr_minus_divide)
  finally show ?thesis .
qed

lemma root_C4_bounds:
  "(26162 / 100 :: real) < 440 * 2 powr (- 3 / 4) \<and> 440 * 2 powr (- 3 / 4) < (26164 / 100 :: real)"
proof -
  let ?x = "2 powr (- 3 / 4) :: real"
  have pos: "0 \<le> ?x" by simp
  have "(26162 / 100 / 440 :: real) ^ 4 < ?x ^ 4" unfolding root_C4_pow4 by (simp add: power4_eq_xxxx)
  then have lo: "26162 / 100 / 440 < ?x" using pos by (rule power_less_imp_less_base)
  have "?x ^ 4 < (26164 / 100 / 440 :: real) ^ 4" unfolding root_C4_pow4 by (simp add: power4_eq_xxxx)
  then have hi: "?x < 26164 / 100 / 440" by (rule power_less_imp_less_base) simp
  from lo hi show ?thesis by simp
qed

lemma justRootFreq_root0: "justRootFreq (setJustRoot s 0) = 440 * 2 powr (- 3 / 4)"
  by (simp add: setJustRoot_def)

lemma two_powr_neg_nat: "(2::real) powr (- real n) = (1 / 2) ^ n"
proof -
  have "(2::real) powr (- real n) = inverse (2 powr real n)" by (rule powr_minus)
  also have "\<dots> = inverse (2 ^ n)" by (simp add: powr_realpow)
  also have "\<dots> = (1 / 2) ^ n" by (simp add: power_one_over inverse_eq_divide)
  finally show ?thesis .
qed

lemma octave_factor:
  "(if oct = 0 then 1 else if oct < 0 then (1 / 2) ^ nat \<bar>oct\<bar> else 2 ^ nat oct)
     = (2::real) powr real_of_int oct" for oct :: int
proof (cases "oct < 0")
  case True
  then have "real_of_int oct = - real (nat \<bar>oct\<bar>)" by simp
  then have "(2::real) powr real_of_int oct = 2 powr (- real (nat \<bar>oct\<bar>))" by (rule arg_cong)
  also have "\<dots> = (1 / 2) ^ nat \<bar>oct\<bar>" by (rule two_powr_neg_nat)
  finally show ?thesis using True by simp
next
  case False
  then have "real_of_int oct = real (nat oct)" by simp
  then have "(2::real) powr real_of_int oct = 2 powr real (nat oct)" by (rule arg_cong)
  also have "\<dots> = 2 ^ nat oct" by (simp add: powr_realpow)
  finally show ?thesis using False by simp
qed

lemma newNote_just_root0:
  assumes "justIntonation s" and "synth_randLvl s = 0" and "0 \<le> p" and "p \<le> 127"
  shows "\<exists>note. newNote (setJustRoot s 0) p vel r1 r2 = Inr note
           \<and> init_frequency note =
               justRootFreq (setJustRoot s 0) * justRatios ! nat (p mod 12)
                 * 2 powr real_of_int (p div 12 - 5)"
proof -
  let ?s = "setJustRoot s 0"
  let ?n0 = "initNull\<lparr>randLvl := 0, state := ATTACK, pitch := p, octave := p div 12,
            init_frequency := 440 * 2 powr ((real_of_int p - 69) / 12),
            frequency := 440 * 2 powr ((real_of_int p - 69) / 12),
            init_volume := vel * freqVolumeAdjust ! nat (p div 12),
            volume := Scalar (vel * freqVolumeAdjust ! nat (p div 12)),
            phase_index := 0, profile_phase_index := 0\<rparr>"
  have s: "justIntonation ?s" "synth_randLvl ?s = 0" "justRootPitch ?s = 0"
    using assms(1,2) by (simp_all add: setJustRoot_def)
  have n0: "Note_init p vel ATTACK (synth_randLvl ?s) 0 r1 = Inr ?n0"
    unfolding s using assms(3,4) by (rule Note_init_equal_temperament)
  from midi_octave [OF assms(3,4)] have o: "0 \<le> octave ?n0" "octave ?n0 < 11" by simp_all
  have adj: "randFreqAdjust ?n0 r2 = Inr 0"
    using o by (rule randFreqAdjust_zero) simp
  have "0 \<le> p mod 12" "p mod 12 < 12" by simp_all
  then have ratio: "py_getitem justRatios (p mod 12) = Inr (justRatios ! nat (p mod 12))"
    by (intro py_getitem_in_range) (simp_all add: justRatios_def)
  have "setJustIntonation ?n0 (justRootFreq ?s) (justRootPitch ?s) r2 =
      Inr (?n0\<lparr>init_frequency := justRootFreq ?s * justRatios ! nat (p mod 12)
                   * 2 powr real_of_int (p div 12 - 5)\<rparr>)"
    unfolding s
    by (simp add: setJustIntonation_def Let_def ratio adj octave_factor)
  then show ?thesis
    using s(1) n0 by (simp add: newNote_def setPhase_def)
qed

text \<open>
  Claim C8: in just intonation with root pitch 0 and detune level 0, the root frequency
  is 261.63 Hz up to 0.01; the note created for pitch 60 has the root frequency, the
  note for pitch 67 has \<open>3/2\<close> of it; for every pitch from 0 to 127 the frequency is the
  root frequency times the ratio of the table at \<open>pitch mod 12\<close> times
  \<open>2 ^ (pitch div 12 - 5)\<close>, so the octave of the root (pitches 60 to 71) has the
  factor 1.
\<close>

theorem just_intonation_root0:
  assumes "justIntonation s" and "synth_randLvl s = 0"
  shows "\<bar>justRootFreq (setJustRoot s 0) - 26163 / 100\<bar> < 1 / 100
       \<and> (\<exists>note. newNote (setJustRoot s 0) 60 vel r1 r2 = Inr note
              \<and> init_frequency note = justRootFreq (setJustRoot s 0))
       \<and> (\<exists>note. newNote (setJustRoot s 0) 67 vel r1 r2 = Inr note
              \<and> init_frequency note = justRootFreq (setJustRoot s 0) * (3 / 2))
       \<and> (\<forall>p. 0 \<le> p \<and> p \<le> 127 \<longrightarrow>
             (\<exists>note. newNote (setJustRoot s 0) p vel r1 r2 = Inr note
                \<and> init_frequency note =
                    justRootFreq (setJustRoot s 0) * justRatios ! nat (p mod 12)
                      * 2 powr real_of_int (p div 12 - 5)))"
proof (intro conjI allI impI)
  show "\<bar>justRootFreq (setJustRoot s 0) - 26163 / 100\<bar> < 1 / 100"
    unfolding justRootFreq_root0 using root_C4_bounds by linarith
  show "\<exists>note. newNote (setJustRoot s 0) 60 vel r1 r2 = Inr note
              \<and> init_frequency note = justRootFreq (setJustRoot s 0)"
    using newNote_just_root0 [OF assms, of 60 vel r1 r2] by (simp add: justRatios_def)
  show "\<exists>note. newNote (setJustRoot s 0) 67 vel r1 r2 = Inr note
              \<and> init_frequency note = justRootFreq (setJustRoot s 0) * (3 / 2)"
    using newNote_just_root0 [OF assms, of 67 vel r1 r2]
    by (simp add: justRatios_def eval_nat_numeral)
  fix p :: int
  assume "0 \<le> p \<and> p \<le> 127"
  then show "\<exists>note. newNote (setJustRoot s 0) p vel r1 r2 = Inr note
                \<and> init_frequency note =
                    justRootFreq (setJustRoot s 0) * justRatios ! nat (p mod 12)
                      * 2 powr real_of_int (p div 12 - 5)"
    using newNote_just_root0 [OF assms, of p vel r1 r2] by simp
qed

text \<open>Witness for C8: pitch 67 gives \<open>3/2\<close> of the root, pitch 72 (an octave up) twice the root.\<close>

theorem just_intonation_root0_witness:
  "justIntonation just_synth \<and> synth_randLvl just_synth = 0
   \<and> (0::int) \<le> 72 \<and> (72::int) \<le> 127
   \<and> (\<exists>note. newNote (setJustRoot just_synth 0) 67 (1 / 2) 0 0 = Inr note
          \<and> init_frequency note = justRootFreq (setJustRoot just_synth 0) * (3 / 2))
   \<and> (\<exists>note. newNote (setJustRoot just_synth 0) 72 (1 / 2) 0 0 = Inr note
          \<and> init_frequency note = justRootFreq (setJustRoot just_synth 0) * 2)"
proof -
  have h: "justIntonation just_synth" "synth_randLvl just_synth = 0"
    by (simp_all add: just_synth_def demo_synth_def)
  note t = just_intonation_root0 [OF h, of "1 / 2" 0 0]
  from t have a: "\<exists>note. newNote (setJustRoot just_synth 0) 67 (1 / 2) 0 0 = Inr note
          \<and> init_frequency note = justRootFreq (setJustRoot just_synth 0) * (3 / 2)"
    by blast
  from t have "\<forall>p. 0 \<le> p \<and> p \<le> 127 \<longrightarrow>
             (\<exists>note. newNote (setJustRoot just_synth 0) p (1 / 2) 0 0 = Inr note
                \<and> init_frequency note =
                    justRootFreq (setJustRoot just_synth 0) * justRatios ! nat (p mod 12)
                      * 2 powr real_of_int (p div 12 - 5))"
    by blast
  from this [rule_format, of 72]
  have b: "\<exists>note. newNote (setJustRoot just_synth 0) 72 (1 / 2) 0 0 = Inr note
          \<and> init_frequency note = justRootFreq (setJustRoot just_synth 0) * 2"
    by (simp add: justRatios_def)
  from h a b show ?thesis by simp
qed

subsection \<open>Wavetable builder\<close>

lemma length_stride: "length (stride n xs) = (length xs + n - 1) div n"
  by (simp add: stride_def)

lemma length_tile: "length (tile xs n) = n * length xs"
  by (induction n) (simp_all add: tile_def)

lemma tile_Suc: "tile xs (Suc n) = xs @ tile xs n"
  by (simp add: tile_def)

lemma nth_tile: "k < n * length xs \<Longrightarrow> tile xs n ! k = xs ! (k mod length xs)"
proof (induction n arbitrary: k)
  case 0
  then show ?case by simp
next
  case (Suc n)
  show ?case
  proof (cases "k < length xs")
    case True
    then show ?thesis by (simp add: tile_Suc nth_append)
  next
    case False
    with Suc.prems have "k - length xs < n * length xs" by simp
    from Suc.IH [OF this] False show ?thesis
      by (simp add: tile_Suc nth_append le_mod_geq)
  qed
qed

lemma stride_covers: "0 < n \<Longrightarrow> L \<le> n * ((L + n - 1) div n)" for n L :: nat
proof -
  assume n: "0 < n"
  have "L + n - 1 = (L + n - 1) div n * n + (L + n - 1) mod n" by simp
  moreover have "(L + n - 1) mod n \<le> n - 1" using n by (simp add: Suc_leI less_imp_diff_less mod_less_divisor Nat.le_diff_conv2)
  ultimately have "L + n - 1 \<le> (L + n - 1) div n * n + (n - 1)" by linarith
  then show ?thesis using n by (simp add: mult.commute)
qed

lemma length_harmonic_partial:
  "0 < n \<Longrightarrow> length data = WAVE_SAMPLES \<Longrightarrow> length (harmonic_partial n data) = WAVE_SAMPLES"
  using stride_covers [of n WAVE_SAMPLES]
  by (simp add: harmonic_partial_def length_tile length_stride)

lemma nth_harmonic_partial:
  assumes "0 < n" "length data = WAVE_SAMPLES" "k < WAVE_SAMPLES"
  shows "harmonic_partial n data ! k =
           data ! ((k mod ((WAVE_SAMPLES + n - 1) div n)) * n) / real (n * 2)"
proof -
  let ?m = "(WAVE_SAMPLES + n - 1) div n"
  let ?part = "map (\<lambda>x. x / real (n * 2)) (stride n data)"
  have len: "length ?part = ?m" using assms(2) by (simp add: length_stride)
  have cover: "WAVE_SAMPLES \<le> n * ?m" using assms(1) by (rule stride_covers)
  then have mpos: "0 < ?m" using assms(3) by (cases "?m = 0") auto
  have k: "k < n * length ?part" using cover assms(3) len by simp
  have "harmonic_partial n data ! k = tile ?part n ! k"
    using assms(3) by (simp add: harmonic_partial_def)
  also have "\<dots> = ?part ! (k mod ?m)" using nth_tile [OF k] len by simp
  also have "\<dots> = data ! ((k mod ?m) * n) / real (n * 2)"
    using mpos assms(2) by (simp add: stride_def)
  finally show ?thesis .
qed

lemma harmonics_loop_eq:
  assumes "length data = WAVE_SAMPLES" "length newData = WAVE_SAMPLES"
  shows "harmonics_loop data idx newData =
           Inr (map (\<lambda>k. newData ! k + (\<Sum>i\<leftarrow>idx. harmonic_partial (i + 2) data ! k))
                  [0..<WAVE_SAMPLES])"
  using assms(2)
proof (induction idx arbitrary: newData)
  case Nil
  then show ?case by (simp add: map_nth [symmetric] del: map_nth) (metis map_nth)
next
  case (Cons i rest)
  let ?p = "harmonic_partial (i + 2) data"
  have lp: "length ?p = WAVE_SAMPLES" using assms(1) by (simp add: length_harmonic_partial)
  let ?nd = "map (\<lambda>(x, y). x + y) (zip newData ?p)"
  have add: "iadd newData ?p = Inr ?nd" using lp Cons.prems by (simp add: iadd_def)
  have lnd: "length ?nd = WAVE_SAMPLES" using lp Cons.prems by simp
  have nth: "k < WAVE_SAMPLES \<Longrightarrow> ?nd ! k = newData ! k + ?p ! k" for k
    using lp Cons.prems by simp
  have "harmonics_loop data (i # rest) newData = harmonics_loop data rest ?nd"
    using add by (simp add: harmonic_partial_def Let_def)
  also have "\<dots> = Inr (map (\<lambda>k. ?nd ! k + (\<Sum>i\<leftarrow>rest. harmonic_partial (i + 2) data ! k))
                  [0..<WAVE_SAMPLES])"
    using lnd by (rule Cons.IH)
  also have "\<dots> = Inr (map (\<lambda>k. newData ! k + (\<Sum>i\<leftarrow>i # rest. harmonic_partial (i + 2) data ! k))
                  [0..<WAVE_SAMPLES])"
    using nth by (simp add: add.assoc)
  finally show ?case .
qed

lemma genHarmonics_eq:
  assumes "length data = WAVE_SAMPLES"
  shows "genHarmonics h data =
           Inr (map (\<lambda>k. data ! k + (\<Sum>i\<leftarrow>[0..<h]. harmonic_partial (i + 2) data ! k))
                  [0..<WAVE_SAMPLES])"
proof (cases "h = 0")
  case True
  have "map (\<lambda>k. data ! k) [0..<WAVE_SAMPLES] = data"
    using assms map_nth [of data] by simp
  then show ?thesis using True assms by (simp add: genHarmonics_def harmonics_loop_eq)
next
  case False
  then show ?thesis using assms by (simp add: genHarmonics_def harmonics_loop_eq)
qed

lemma square_table_0: "base_table square_wf ! 0 = - 8000"
  by (simp add: base_table_def genSquareArray_def Let_def WAVE_SAMPLES_def INIT_AMPLITUDE_def
      np_round_def)

lemma harmonic_partial_0:
  "0 < n \<Longrightarrow> length data = WAVE_SAMPLES \<Longrightarrow> harmonic_partial n data ! 0 = data ! 0 / real (n * 2)"
  using nth_harmonic_partial [of n data 0] by (simp add: WAVE_SAMPLES_def)

text \<open>
  Claim C6, as the specification states it: the built table is the base table plus the
  partials of stride \<open>i + 2\<close> for \<open>i\<close> from 1 to \<open>harmonicCount\<close>. The code does not do
  this: \<^verbatim>\<open>range(numHarmonics)\<close> starts at 0. For the square table and one harmonic the
  code adds the partial of stride 2 (first sample \<open>-8000 - 8000/4\<close>), the
  specification the partial of stride 3 (first sample \<open>-8000 - 8000/6\<close>).
\<close>

theorem harmonics_stride_off_by_one:
  "genHarmonics 1 (base_table square_wf) \<noteq> Inr (spec_harmonics 1 (base_table square_wf))"
proof
  assume eq: "genHarmonics 1 (base_table square_wf) = Inr (spec_harmonics 1 (base_table square_wf))"
  let ?b = "base_table square_wf"
  have "map (\<lambda>k. ?b ! k + (\<Sum>i\<leftarrow>[0..<1]. harmonic_partial (i + 2) ?b ! k)) [0..<WAVE_SAMPLES]
      = spec_harmonics 1 ?b"
    using eq by (simp add: genHarmonics_eq [OF length_base_table])
  then have "map (\<lambda>k. ?b ! k + (\<Sum>i\<leftarrow>[0..<1]. harmonic_partial (i + 2) ?b ! k)) [0..<WAVE_SAMPLES] ! 0
      = spec_harmonics 1 ?b ! 0"
    by simp
  then have "?b ! 0 + harmonic_partial 2 ?b ! 0 = ?b ! 0 + harmonic_partial 3 ?b ! 0"
    by (simp add: spec_harmonics_def WAVE_SAMPLES_def numeral_2_eq_2 numeral_3_eq_3)
  then show False
    by (simp add: harmonic_partial_0 length_base_table square_table_0)
qed

text \<open>
  Claim C6, amended: for every harmonic count and every base table of \<^verbatim>\<open>WAVE_SAMPLES\<close>
  entries, \<^verbatim>\<open>genHarmonics\<close> returns the base table plus, for each index \<open>i\<close> from 0 to
  \<open>harmonicCount - 1\<close>, the partial obtained by subsampling the base table at stride
  \<open>i + 2\<close>, dividing by \<open>2 * (i + 2)\<close> and tiling back to full length; sample \<open>k\<close> of that
  partial is sample \<open>(k mod \<lceil>N / (i + 2)\<rceil>) * (i + 2)\<close> of the base table divided by
  \<open>2 * (i + 2)\<close>. The table that \<^verbatim>\<open>genWaveArray\<close> stores is this sum, clipped.
\<close>

theorem genHarmonics_sum_of_partials:
  assumes "length base = WAVE_SAMPLES"
  shows "genHarmonics h base =
           Inr (map (\<lambda>k. base ! k + (\<Sum>i\<leftarrow>[0..<h]. harmonic_partial (i + 2) base ! k))
                  [0..<WAVE_SAMPLES])
       \<and> (\<forall>i k. k < WAVE_SAMPLES \<longrightarrow>
             harmonic_partial (i + 2) base ! k =
               base ! ((k mod ((WAVE_SAMPLES + (i + 2) - 1) div (i + 2))) * (i + 2))
                 / real (2 * (i + 2)))
       \<and> (base = base_table (WAVEFORM s) \<and> h = NumHarmonics s \<longrightarrow>
             genWaveArray s =
               Inr (s\<lparr>WaveArray := clip_table
                      (map (\<lambda>k. base ! k + (\<Sum>i\<leftarrow>[0..<h]. harmonic_partial (i + 2) base ! k))
                         [0..<WAVE_SAMPLES])\<rparr>))"
proof (intro conjI allI impI)
  show g: "genHarmonics h base =
           Inr (map (\<lambda>k. base ! k + (\<Sum>i\<leftarrow>[0..<h]. harmonic_partial (i + 2) base ! k))
                  [0..<WAVE_SAMPLES])"
    using assms by (rule genHarmonics_eq)
  show "harmonic_partial (i + 2) base ! k =
               base ! ((k mod ((WAVE_SAMPLES + (i + 2) - 1) div (i + 2))) * (i + 2))
                 / real (2 * (i + 2))"
    if "k < WAVE_SAMPLES" for i k
    using nth_harmonic_partial [of "i + 2" base k] assms that by (simp add: mult.commute)
  show "genWaveArray s =
               Inr (s\<lparr>WaveArray := clip_table
                      (map (\<lambda>k. base ! k + (\<Sum>i\<leftarrow>[0..<h]. harmonic_partial (i + 2) base ! k))
                         [0..<WAVE_SAMPLES])\<rparr>)"
    if "base = base_table (WAVEFORM s) \<and> h = NumHarmonics s"
    using that g by (simp add: genWaveArray_def)
qed

text \<open>
  Witness for C6: the square table with one harmonic; the first sample is
  \<open>-8000 + (-8000) / 4 = -10000\<close>.
\<close>

theorem genHarmonics_sum_of_partials_witness:
  "length (base_table square_wf) = WAVE_SAMPLES
   \<and> (0::nat) < WAVE_SAMPLES
   \<and> (\<exists>t. genHarmonics 1 (base_table square_wf) = Inr t \<and> t ! 0 = - 10000)
   \<and> harmonic_partial 2 (base_table square_wf) ! 0 = - 2000
   \<and> base_table square_wf = base_table (WAVEFORM (demo_synth\<lparr>NumHarmonics := 1\<rparr>))
   \<and> 1 = NumHarmonics (demo_synth\<lparr>NumHarmonics := 1\<rparr>)
   \<and> (\<exists>s'. genWaveArray (demo_synth\<lparr>NumHarmonics := 1\<rparr>) = Inr s' \<and> WaveArray s' ! 0 = - 10000)"
proof -
  let ?b = "base_table square_wf"
  let ?s = "demo_synth\<lparr>NumHarmonics := 1\<rparr>"
  note t = genHarmonics_sum_of_partials [OF length_base_table, of 1 square_wf ?s]
  have pos: "(0::nat) < WAVE_SAMPLES" by (simp add: WAVE_SAMPLES_def)
  have s: "?b = base_table (WAVEFORM ?s)" "1 = NumHarmonics ?s"
    by (simp_all add: demo_synth_def)
  from t have p: "\<forall>i k. k < WAVE_SAMPLES \<longrightarrow>
             harmonic_partial (i + 2) ?b ! k =
               ?b ! ((k mod ((WAVE_SAMPLES + (i + 2) - 1) div (i + 2))) * (i + 2))
                 / real (2 * (i + 2))"
    by blast
  from p [rule_format, of 0 0, OF pos]
  have p2': "harmonic_partial (Suc (Suc 0)) ?b ! 0 = - 2000"
    by (simp add: square_table_0)
  then have p2: "harmonic_partial 2 ?b ! 0 = - 2000"
    by (simp add: numeral_2_eq_2)
  from t have g: "genHarmonics 1 ?b =
           Inr (map (\<lambda>k. ?b ! k + (\<Sum>i\<leftarrow>[0..<1]. harmonic_partial (i + 2) ?b ! k))
                  [0..<WAVE_SAMPLES])"
    by blast
  have e0: "map (\<lambda>k. ?b ! k + (\<Sum>i\<leftarrow>[0..<1]. harmonic_partial (i + 2) ?b ! k))
                  [0..<WAVE_SAMPLES] ! 0 = - 10000"
    using pos by (simp add: p2' square_table_0)
  from t s have w: "genWaveArray ?s =
               Inr (?s\<lparr>WaveArray := clip_table
                      (map (\<lambda>k. ?b ! k + (\<Sum>i\<leftarrow>[0..<1]. harmonic_partial (i + 2) ?b ! k))
                         [0..<WAVE_SAMPLES])\<rparr>)"
    by blast
  have "clip_table (map (\<lambda>k. ?b ! k + (\<Sum>i\<leftarrow>[0..<1]. harmonic_partial (i + 2) ?b ! k))
                         [0..<WAVE_SAMPLES]) ! 0 = - 10000"
    using pos e0 by (simp add: clip_table_def np_clip_def)
  with w have w': "\<exists>s'. genWaveArray ?s = Inr s' \<and> WaveArray s' ! 0 = - 10000" by simp
  from g e0 have g': "\<exists>t. genHarmonics 1 ?b = Inr t \<and> t ! 0 = - 10000" by simp
  show ?thesis using length_base_table pos g' p2 s w' by blast
qed

subsection \<open>Rendering blocks\<close>

lemma genSoundData_eq:
  assumes "init_frequency note + notesFreqAdjust s \<noteq> 0"
  shows "\<exists>phases ph. length phases = BLOCKSIZE \<and> (\<forall>p \<in> set phases. p < WAVE_SAMPLES)
           \<and> genSoundData s note =
               (note\<lparr>frequency := init_frequency note + notesFreqAdjust s, phase_index := ph\<rparr>,
                sample_block s
                  (note\<lparr>frequency := init_frequency note + notesFreqAdjust s, phase_index := ph\<rparr>)
                  phases)"
proof -
  let ?inc = "(init_frequency note + notesFreqAdjust s) * STEPS_PER_CYCLE"
  let ?phases = "map (\<lambda>i. wrap_phase (phase_index note + real i * ?inc)) [0..<512]"
  have inc: "?inc \<noteq> 0"
    using assms by (simp add: STEPS_PER_CYCLE_def WAVE_SAMPLES_def SAMPLE_RATE_def)
  have ph: "phase_indices (phase_index note) ?inc = Inr ?phases"
    using inc by (rule phase_indices_eq)
  have ne: "?phases \<noteq> []" by simp
  have 1: "length ?phases = BLOCKSIZE" by (simp add: BLOCKSIZE_def)
  have 2: "\<forall>p \<in> set ?phases. p < WAVE_SAMPLES" by (auto simp: wrap_phase_less)
  have 3: "genSoundData s note =
      (note\<lparr>frequency := init_frequency note + notesFreqAdjust s,
             phase_index := fmod (real (last ?phases) + ?inc) (real WAVE_SAMPLES)\<rparr>,
       sample_block s
         (note\<lparr>frequency := init_frequency note + notesFreqAdjust s,
             phase_index := fmod (real (last ?phases) + ?inc) (real WAVE_SAMPLES)\<rparr>)
         ?phases)"
    unfolding genSoundData_def Let_def using ph ne by simp
  from 1 2 3 show ?thesis by blast
qed

lemma sample_block_ok:
  assumes "length (WaveArray s) = WAVE_SAMPLES"
    and "\<forall>p \<in> set phases. p < WAVE_SAMPLES"
    and "length phases = BLOCKSIZE"
    and "(\<exists>v. volume note = Scalar v)
         \<or> (\<exists>vs. volume note = Array vs \<and> (length vs = BLOCKSIZE \<or> length vs = 1))"
  shows "\<exists>d. sample_block s note phases = Inr d \<and> length d = BLOCKSIZE"
proof -
  have t: "take_idx (WaveArray s) phases = Inr (map (\<lambda>p. WaveArray s ! p) phases)"
    using assms(1,2) by (simp add: take_idx_def)
  from assms(4) show ?thesis
  proof
    assume "\<exists>v. volume note = Scalar v"
    then show ?thesis using t assms(3) by (auto simp: sample_block_def)
  next
    assume "\<exists>vs. volume note = Array vs \<and> (length vs = BLOCKSIZE \<or> length vs = 1)"
    then show ?thesis using t assms(3)
      by (auto simp: sample_block_def mul_arrays_def BLOCKSIZE_def)
  qed
qed

lemma length_slice_profile:
  assumes "length prof = BLOCKSIZE * c + 1" and "k \<le> c"
  shows "length (slice prof (k * BLOCKSIZE) (k * BLOCKSIZE + BLOCKSIZE)) = BLOCKSIZE
       \<or> length (slice prof (k * BLOCKSIZE) (k * BLOCKSIZE + BLOCKSIZE)) = 1"
proof (cases "k < c")
  case True
  then have "Suc k \<le> c" by simp
  then have "BLOCKSIZE * Suc k \<le> BLOCKSIZE * c" by (rule mult_le_mono2)
  then have "BLOCKSIZE \<le> BLOCKSIZE * c + 1 - k * BLOCKSIZE" by (simp add: mult.commute)
  then show ?thesis using assms(1) by (simp add: slice_def)
next
  case False
  with assms(2) have "k = c" by simp
  then show ?thesis using assms(1) by (simp add: slice_def BLOCKSIZE_def mult.commute)
qed

lemma advance_envelope_props:
  assumes "tables_ok s" and "renders s note" and "state note \<noteq> NULL" and "state note \<noteq> OFF"
  shows "init_frequency (fst (advance_envelope s note)) = init_frequency note
       \<and> ((\<exists>v. volume (fst (advance_envelope s note)) = Scalar v)
           \<or> (\<exists>vs. volume (fst (advance_envelope s note)) = Array vs
                  \<and> (length vs = BLOCKSIZE \<or> length vs = 1)))"
proof (cases "state note")
  case ATTACK
  with assms(2) have k: "profile_phase_index note \<le> AttackCycles s"
    by (simp add: renders_def)
  from assms(1) have "length (attackProfile s) = BLOCKSIZE * AttackCycles s + 1"
    by (simp add: tables_ok_def)
  from length_slice_profile [OF this k] ATTACK show ?thesis
    by (auto simp: advance_envelope_def Let_def)
next
  case DECAY
  with assms(2) have k: "profile_phase_index note \<le> DecayCycles s"
    by (simp add: renders_def)
  from assms(1) have "length (decayProfile s) = BLOCKSIZE * DecayCycles s + 1"
    by (simp add: tables_ok_def)
  from length_slice_profile [OF this k] DECAY show ?thesis
    by (auto simp: advance_envelope_def Let_def)
next
  case ON
  then show ?thesis by (simp add: advance_envelope_def)
qed (use assms in simp_all)

lemma genWave_ok:
  assumes "tables_ok s" and "i < length (activeNotes s)"
    and "renders s (activeNotes s ! i)" and "state (activeNotes s ! i) \<noteq> NULL"
  shows "\<exists>d. genWave s i =
            (s\<lparr>activeNotes := (activeNotes s)[i := render_note s (activeNotes s ! i)]\<rparr>, Inr d)
          \<and> length d = BLOCKSIZE"
proof (cases "state (activeNotes s ! i) = OFF")
  case True
  then show ?thesis
    by (simp add: genWave_def render_note_def Let_def)
next
  case False
  let ?note = "activeNotes s ! i"
  obtain note1 deleted where ae: "advance_envelope s ?note = (note1, deleted)"
    by (cases "advance_envelope s ?note")
  from advance_envelope_props [OF assms(1,3,4) False] ae
  have f1: "init_frequency note1 = init_frequency ?note"
    and v1: "(\<exists>v. volume note1 = Scalar v)
           \<or> (\<exists>vs. volume note1 = Array vs \<and> (length vs = BLOCKSIZE \<or> length vs = 1))"
    by simp_all
  from assms(3,4) False have "init_frequency ?note + notesFreqAdjust s \<noteq> 0"
    by (simp add: renders_def)
  with f1 have nz: "init_frequency note1 + notesFreqAdjust s \<noteq> 0" by simp
  from genSoundData_eq [OF nz] obtain phases ph where
    lp: "length phases = BLOCKSIZE" and bp: "\<forall>p \<in> set phases. p < WAVE_SAMPLES"
    and gs: "genSoundData s note1 =
               (note1\<lparr>frequency := init_frequency note1 + notesFreqAdjust s, phase_index := ph\<rparr>,
                sample_block s
                  (note1\<lparr>frequency := init_frequency note1 + notesFreqAdjust s, phase_index := ph\<rparr>)
                  phases)"
    by blast
  let ?note2 = "note1\<lparr>frequency := init_frequency note1 + notesFreqAdjust s, phase_index := ph\<rparr>"
  from assms(1) have wa: "length (WaveArray s) = WAVE_SAMPLES" by (simp add: tables_ok_def)
  have "(\<exists>v. volume ?note2 = Scalar v)
           \<or> (\<exists>vs. volume ?note2 = Array vs \<and> (length vs = BLOCKSIZE \<or> length vs = 1))"
    using v1 by simp
  from sample_block_ok [OF wa bp lp this] obtain d where
    d: "sample_block s ?note2 phases = Inr d" "length d = BLOCKSIZE" by blast
  have "genWave s i =
      (s\<lparr>activeNotes := (activeNotes s)[i := render_note s ?note]\<rparr>, Inr d)"
    using False ae gs d(1) by (simp add: genWave_def render_note_def Let_def deleteNote_def)
  with d(2) show ?thesis by blast
qed

lemma render_note_activeNotes:
  "render_note (s\<lparr>activeNotes := xs\<rparr>) note = render_note s note"
  by (simp add: render_note_def advance_envelope_def genSoundData_def Let_def
      split: NoteStates.splits sum.splits prod.splits)

lemma render_slot_activeNotes:
  "render_slot (s\<lparr>activeNotes := xs\<rparr>) = render_slot s"
  by (rule ext) (simp add: render_slot_def render_note_activeNotes)

lemma renders_activeNotes: "renders (s\<lparr>activeNotes := xs\<rparr>) note = renders s note"
  by (simp add: renders_def)

lemma tables_ok_activeNotes: "tables_ok (s\<lparr>activeNotes := xs\<rparr>) = tables_ok s"
  by (simp add: tables_ok_def)

lemma iadd_same_length:
  "length a = length b \<Longrightarrow> \<exists>c. iadd a b = Inr c \<and> length c = length a"
  by (simp add: iadd_def)

lemma mix_voices_lockstep:
  assumes "tables_ok s"
    and "\<forall>j. k \<le> j \<and> j < length (activeNotes s) \<longrightarrow> renders s (activeNotes s ! j)"
    and "length data = BLOCKSIZE" and "k \<le> length (activeNotes s)"
  shows "\<exists>data'. mix_voices s [k..<length (activeNotes s)] data =
           (s\<lparr>activeNotes := take k (activeNotes s)
                @ map (render_slot s) (drop k (activeNotes s))\<rparr>, data', None)
         \<and> length data' = BLOCKSIZE"
  using assms
proof (induction "length (activeNotes s) - k" arbitrary: s k data)
  case 0
  then show ?case by simp
next
  case (Suc d)
  let ?xs = "activeNotes s"
  let ?f = "render_slot s"
  from Suc.hyps(2) have k: "k < length ?xs" by simp
  then have upt: "[k..<length ?xs] = k # [Suc k..<length ?xs]"
    by (simp add: upt_conv_Cons)
  have dr: "drop k ?xs = ?xs ! k # drop (Suc k) ?xs"
    using k by (simp add: Cons_nth_drop_Suc)
  have step: "\<exists>data'. mix_voices (s\<lparr>activeNotes := ?xs[k := y]\<rparr>) [Suc k..<length ?xs] dat =
           (s\<lparr>activeNotes := take k ?xs @ y # map ?f (drop (Suc k) ?xs)\<rparr>, data', None)
         \<and> length data' = BLOCKSIZE" if "length dat = BLOCKSIZE" for y dat
  proof -
    let ?s' = "s\<lparr>activeNotes := ?xs[k := y]\<rparr>"
    have "\<exists>data'. mix_voices ?s' [Suc k..<length (activeNotes ?s')] dat =
           (?s'\<lparr>activeNotes := take (Suc k) (activeNotes ?s')
                @ map (render_slot ?s') (drop (Suc k) (activeNotes ?s'))\<rparr>, data', None)
         \<and> length data' = BLOCKSIZE"
    proof (rule Suc.hyps(1))
      show "d = length (activeNotes ?s') - Suc k" using Suc.hyps(2) by simp
      show "tables_ok ?s'" using Suc.prems(1) by (simp add: tables_ok_activeNotes)
      show "\<forall>j. Suc k \<le> j \<and> j < length (activeNotes ?s') \<longrightarrow>
              renders ?s' (activeNotes ?s' ! j)"
        using Suc.prems(2) by (simp add: renders_activeNotes)
      show "length dat = BLOCKSIZE" by (rule that)
      show "Suc k \<le> length (activeNotes ?s')" using k by simp
    qed
    then show ?thesis using k by (simp add: upd_take_drop render_slot_activeNotes)
  qed
  show ?case
  proof (cases "state (?xs ! k) = NULL")
    case True
    from step [of data "?xs ! k"] Suc.prems(3) True show ?thesis
      by (simp only: upt mix_voices.simps dr list.map) (simp add: render_slot_def)
  next
    case False
    have vk: "renders s (?xs ! k)" using Suc.prems(2) k by simp
    from genWave_ok [OF Suc.prems(1) k vk False] obtain sd where
      gw: "genWave s k = (s\<lparr>activeNotes := ?xs[k := render_note s (?xs ! k)]\<rparr>, Inr sd)"
      and lsd: "length sd = BLOCKSIZE" by blast
    from iadd_same_length [of data sd] Suc.prems(3) lsd obtain dat where
      ia: "iadd data sd = Inr dat" and ldat: "length dat = BLOCKSIZE" by auto
    from step [OF ldat, of "render_note s (?xs ! k)"] False gw ia show ?thesis
      by (simp only: upt mix_voices.simps dr list.map) (simp add: render_slot_def)
  qed
qed

lemma genSoundData_keeps:
  "state (fst (genSoundData s note)) = state note
   \<and> pitch (fst (genSoundData s note)) = pitch note
   \<and> init_frequency (fst (genSoundData s note)) = init_frequency note
   \<and> profile_phase_index (fst (genSoundData s note)) = profile_phase_index note"
  by (simp add: genSoundData_def Let_def split: sum.splits)

lemma render_slot_decay:
  assumes "state note = DECAY"
  shows "render_slot s note =
           (if DecayCycles s \<le> profile_phase_index note then initNull
            else fst (genSoundData s
                   (note\<lparr>volume := Array (map (\<lambda>x. init_volume note * x)
                             (slice (decayProfile s) (profile_phase_index note * BLOCKSIZE)
                                (profile_phase_index note * BLOCKSIZE + BLOCKSIZE))),
                         profile_phase_index := profile_phase_index note + 1\<rparr>)))"
  using assms by (simp add: render_slot_def render_note_def advance_envelope_def Let_def)

lemma render_slot_decay_state:
  assumes "state note = DECAY"
  shows "profile_phase_index note < DecayCycles s \<Longrightarrow>
           state (render_slot s note) = DECAY
           \<and> profile_phase_index (render_slot s note) = profile_phase_index note + 1"
    and "DecayCycles s \<le> profile_phase_index note \<Longrightarrow> render_slot s note = initNull"
  using assms by (simp_all add: render_slot_decay genSoundData_keeps)

text \<open>A rendered voice renders again, under any frequency offset under which it rendered.\<close>

lemma render_slot_renders:
  assumes "renders s note"
    and "AttackCycles s' = AttackCycles s" "DecayCycles s' = DecayCycles s"
  shows "renders s (render_slot s' note)"
proof (cases "state note")
  case NULL
  then show ?thesis using assms by (simp add: render_slot_def)
next
  case OFF
  then show ?thesis using assms by (simp add: render_slot_def render_note_def)
next
  case ATTACK
  then show ?thesis using assms
    by (auto simp: render_slot_def render_note_def advance_envelope_def Let_def renders_def
        genSoundData_keeps)
next
  case ON
  then show ?thesis using assms
    by (auto simp: render_slot_def render_note_def advance_envelope_def Let_def renders_def
        genSoundData_keeps)
next
  case DECAY
  then show ?thesis using assms
    by (auto simp: render_slot_def render_note_def advance_envelope_def Let_def renders_def
        genSoundData_keeps initNull_def)
qed

lemma modulated_props:
  assumes "tables_ok s"
  shows "apply_wobble (advance_wobble s) = Inr (modulated s)"
    and "notesFreqAdjust (modulated s) \<in> set (freq_adjustments s)"
    and "activeNotes (modulated s) = activeNotes s"
    and "tables_ok (modulated s)"
    and "AttackCycles (modulated s) = AttackCycles s"
    and "DecayCycles (modulated s) = DecayCycles s"
    and "freq_adjustments (modulated s) = freq_adjustments s"
proof -
  from assms have r: "0 < wobbleRate s" "wobbleRate s \<le> length (WOBBLE_PROFILE s)"
    by (simp_all add: tables_ok_def)
  then have idx: "(wobbleIndex s + 1) mod wobbleRate s < length (WOBBLE_PROFILE s)"
    by (meson mod_less_divisor less_le_trans)
  show "apply_wobble (advance_wobble s) = Inr (modulated s)"
    using idx by (simp add: apply_wobble_def advance_wobble_def modulated_def Let_def)
  show "notesFreqAdjust (modulated s) \<in> set (freq_adjustments s)"
    using idx by (auto simp: modulated_def advance_wobble_def freq_adjustments_def Let_def)
  show "activeNotes (modulated s) = activeNotes s"
    by (simp add: modulated_def advance_wobble_def Let_def)
  show "tables_ok (modulated s)"
    using assms by (simp add: tables_ok_def modulated_def advance_wobble_def Let_def)
  show "AttackCycles (modulated s) = AttackCycles s" "DecayCycles (modulated s) = DecayCycles s"
    by (simp_all add: modulated_def advance_wobble_def Let_def)
  show "freq_adjustments (modulated s) = freq_adjustments s"
    by (simp add: freq_adjustments_def modulated_def advance_wobble_def Let_def)
qed

lemma renders_cong:
  "notesFreqAdjust s' = notesFreqAdjust s \<Longrightarrow> AttackCycles s' = AttackCycles s \<Longrightarrow>
   DecayCycles s' = DecayCycles s \<Longrightarrow> renders s' note = renders s note"
  by (simp add: renders_def)

lemma voice_ok_renders:
  assumes "voice_ok s note" and "a \<in> set (freq_adjustments s)"
    and "notesFreqAdjust s' = a" "AttackCycles s' = AttackCycles s" "DecayCycles s' = DecayCycles s"
  shows "renders s' note"
proof -
  from assms(1,2) have "renders (s\<lparr>notesFreqAdjust := a\<rparr>) note"
    by (simp add: voice_ok_def list_all_iff)
  moreover have "renders s' note = renders (s\<lparr>notesFreqAdjust := a\<rparr>) note"
    by (rule renders_cong) (simp_all add: assms)
  ultimately show ?thesis by simp
qed

lemma runStream_lockstep:
  assumes "synth_ok s"
  shows "\<exists>block. runStream s =
           ((modulated s)\<lparr>activeNotes := map (render_slot (modulated s)) (activeNotes s)\<rparr>,
            Inr block)"
proof -
  let ?s3 = "modulated s"
  from assms have t: "tables_ok s" and v: "list_all (voice_ok s) (activeNotes s)"
    by (simp_all add: synth_ok_def)
  note m = modulated_props [OF t]
  have v3: "\<forall>j. 0 \<le> j \<and> j < length (activeNotes ?s3) \<longrightarrow> renders ?s3 (activeNotes ?s3 ! j)"
  proof (intro allI impI)
    fix j assume "0 \<le> j \<and> j < length (activeNotes ?s3)"
    then have "voice_ok s (activeNotes s ! j)"
      using v by (simp add: list_all_length m(3))
    from voice_ok_renders [OF this m(2) refl m(5) m(6)]
    show "renders ?s3 (activeNotes ?s3 ! j)" by (simp add: m(3))
  qed
  from mix_voices_lockstep [OF m(4) v3, of "replicate BLOCKSIZE 0"]
  obtain data' where
    "mix_voices ?s3 [0..<length (activeNotes ?s3)] (replicate BLOCKSIZE 0) =
       (?s3\<lparr>activeNotes := map (render_slot ?s3) (activeNotes ?s3)\<rparr>, data', None)"
    by auto
  then show ?thesis
    by (simp add: runStream_def Let_def m(1) m(3))
qed

lemma synth_ok_step:
  assumes "synth_ok s"
  shows "synth_ok ((modulated s)\<lparr>activeNotes := map (render_slot (modulated s)) (activeNotes s)\<rparr>)"
proof -
  let ?s3 = "modulated s"
  let ?s1 = "?s3\<lparr>activeNotes := map (render_slot ?s3) (activeNotes s)\<rparr>"
  from assms have t: "tables_ok s" and v: "list_all (voice_ok s) (activeNotes s)"
    by (simp_all add: synth_ok_def)
  note m = modulated_props [OF t]
  have "freq_adjustments ?s1 = freq_adjustments ?s3"
    by (simp add: freq_adjustments_def)
  then have fa: "freq_adjustments ?s1 = freq_adjustments s"
    by (simp only: m(7))
  have "voice_ok ?s1 (render_slot ?s3 nt)" if "voice_ok s nt" for nt
    unfolding voice_ok_def fa list_all_iff
  proof
    fix a assume a: "a \<in> set (freq_adjustments s)"
    have r: "renders (s\<lparr>notesFreqAdjust := a\<rparr>) nt"
      using that a by (simp add: voice_ok_def list_all_iff)
    have "renders (s\<lparr>notesFreqAdjust := a\<rparr>) (render_slot ?s3 nt)"
      using r by (rule render_slot_renders) (simp_all add: m(5) m(6))
    moreover have "renders (?s1\<lparr>notesFreqAdjust := a\<rparr>) (render_slot ?s3 nt)
        = renders (s\<lparr>notesFreqAdjust := a\<rparr>) (render_slot ?s3 nt)"
      by (rule renders_cong) (simp_all add: m(5) m(6))
    ultimately show "renders (?s1\<lparr>notesFreqAdjust := a\<rparr>) (render_slot ?s3 nt)" by simp
  qed
  then have "list_all (voice_ok ?s1) (activeNotes ?s1)"
    using v by (simp add: list_all_iff)
  moreover have "tables_ok ?s1" using m(4) by (simp add: tables_ok_activeNotes)
  ultimately show ?thesis by (simp add: synth_ok_def)
qed

lemma run_blocks_decay:
  assumes "synth_ok s" and "i < length (activeNotes s)"
    and "state (activeNotes s ! i) = DECAY"
    and "profile_phase_index (activeNotes s ! i) + d \<le> DecayCycles s"
  shows "\<exists>s'. run_blocks d s = Inr s' \<and> synth_ok s'
           \<and> length (activeNotes s') = length (activeNotes s)
           \<and> DecayCycles s' = DecayCycles s
           \<and> state (activeNotes s' ! i) = DECAY
           \<and> profile_phase_index (activeNotes s' ! i) = profile_phase_index (activeNotes s ! i) + d"
  using assms
proof (induction d arbitrary: s)
  case 0
  then show ?case by simp
next
  case (Suc d)
  let ?s3 = "modulated s"
  let ?s1 = "?s3\<lparr>activeNotes := map (render_slot ?s3) (activeNotes s)\<rparr>"
  from Suc.prems(1) have t: "tables_ok s" by (simp add: synth_ok_def)
  note m = modulated_props [OF t]
  from runStream_lockstep [OF Suc.prems(1)] obtain block where
    rs: "runStream s = (?s1, Inr block)" by blast
  have ok1: "synth_ok ?s1" using Suc.prems(1) by (rule synth_ok_step)
  have lt: "profile_phase_index (activeNotes s ! i) < DecayCycles ?s3"
    using Suc.prems(4) m(6) by simp
  from render_slot_decay_state(1) [OF Suc.prems(3) lt]
  have st: "state (activeNotes ?s1 ! i) = DECAY"
    and ix: "profile_phase_index (activeNotes ?s1 ! i) = profile_phase_index (activeNotes s ! i) + 1"
    using Suc.prems(2) by simp_all
  have l1: "i < length (activeNotes ?s1)" using Suc.prems(2) by simp
  have b1: "profile_phase_index (activeNotes ?s1 ! i) + d \<le> DecayCycles ?s1"
    using Suc.prems(4) ix m(6) by simp
  from Suc.IH [OF ok1 l1 st b1] obtain s' where
    "run_blocks d ?s1 = Inr s'" "synth_ok s'"
    "length (activeNotes s') = length (activeNotes ?s1)"
    "DecayCycles s' = DecayCycles ?s1"
    "state (activeNotes s' ! i) = DECAY"
    "profile_phase_index (activeNotes s' ! i) = profile_phase_index (activeNotes ?s1 ! i) + d"
    by blast
  then show ?case using rs ix m(6) by simp
qed

lemma run_blocks_add:
  "run_blocks a s = Inr s' \<Longrightarrow> run_blocks (a + b) s = run_blocks b s'"
  by (induction a arbitrary: s) (auto split: prod.splits sum.splits)

lemma run_blocks_decay_end:
  assumes "synth_ok s" and "i < length (activeNotes s)"
    and "state (activeNotes s ! i) = DECAY"
    and "profile_phase_index (activeNotes s ! i) = DecayCycles s"
  shows "\<exists>s'. run_blocks 1 s = Inr s' \<and> activeNotes s' ! i = initNull"
proof -
  let ?s3 = "modulated s"
  from assms(1) have t: "tables_ok s" by (simp add: synth_ok_def)
  note m = modulated_props [OF t]
  from runStream_lockstep [OF assms(1)] obtain block where
    rs: "runStream s = (?s3\<lparr>activeNotes := map (render_slot ?s3) (activeNotes s)\<rparr>, Inr block)"
    by blast
  have "DecayCycles ?s3 \<le> profile_phase_index (activeNotes s ! i)"
    using assms(4) m(6) by simp
  from render_slot_decay_state(2) [OF assms(3) this] assms(2) rs show ?thesis by simp
qed

lemma decay_lifetime:
  assumes "synth_ok s" and "i < length (activeNotes s)"
    and "state (activeNotes s ! i) = DECAY"
    and "profile_phase_index (activeNotes s ! i) = 0"
  shows "(\<forall>d \<le> DecayCycles s. \<exists>s'. run_blocks d s = Inr s' \<and> state (activeNotes s' ! i) = DECAY)
       \<and> (\<exists>s'. run_blocks (DecayCycles s + 1) s = Inr s' \<and> state (activeNotes s' ! i) = NULL)"
proof (rule conjI)
  show "\<forall>d \<le> DecayCycles s. \<exists>s'. run_blocks d s = Inr s' \<and> state (activeNotes s' ! i) = DECAY"
  proof (intro allI impI)
    fix d assume "d \<le> DecayCycles s"
    then have "profile_phase_index (activeNotes s ! i) + d \<le> DecayCycles s"
      using assms(4) by simp
    from run_blocks_decay [OF assms(1,2,3) this] show
      "\<exists>s'. run_blocks d s = Inr s' \<and> state (activeNotes s' ! i) = DECAY" by blast
  qed
  have "profile_phase_index (activeNotes s ! i) + DecayCycles s \<le> DecayCycles s"
    using assms(4) by simp
  from run_blocks_decay [OF assms(1,2,3) this] obtain s1 where
    s1: "run_blocks (DecayCycles s) s = Inr s1" "synth_ok s1"
      "length (activeNotes s1) = length (activeNotes s)" "DecayCycles s1 = DecayCycles s"
      "state (activeNotes s1 ! i) = DECAY"
      "profile_phase_index (activeNotes s1 ! i) = profile_phase_index (activeNotes s ! i) + DecayCycles s"
    by blast
  have "profile_phase_index (activeNotes s1 ! i) = DecayCycles s1" using s1(4,6) assms(4) by simp
  from run_blocks_decay_end [OF s1(2) _ s1(5) this] s1(3) assms(2) obtain s2 where
    s2: "run_blocks 1 s1 = Inr s2" "activeNotes s2 ! i = initNull" by auto
  from run_blocks_add [OF s1(1), of 1] s2
  show "\<exists>s'. run_blocks (DecayCycles s + 1) s = Inr s' \<and> state (activeNotes s' ! i) = NULL"
    by (simp add: initNull_def)
qed

lemma length_linspace: "length (linspace a b n) = n"
  by (simp add: linspace_def)

text \<open>\<^verbatim>\<open>setAdsr\<close> gives the envelope profiles the lengths that \<open>tables_ok\<close> asks for.\<close>

lemma setAdsr_profiles:
  "length (attackProfile (setAdsr s attack decay)) = BLOCKSIZE * AttackCycles (setAdsr s attack decay) + 1
   \<and> length (decayProfile (setAdsr s attack decay)) = BLOCKSIZE * DecayCycles (setAdsr s attack decay) + 1"
  by (simp add: setAdsr_def length_linspace)

lemma slot_state_after_decay:
  assumes "synth_ok (startDecayNote s (pitch (activeNotes s ! i)))"
    and "i < length (activeNotes s)"
    and "state (activeNotes s ! i) = ATTACK"
    and "profile_phase_index (activeNotes s ! i) = 0"
  shows "state (activeNotes (startDecayNote s (pitch (activeNotes s ! i))) ! i) = DECAY
       \<and> (\<forall>d \<le> DecayCycles s.
             slot_state_after d i (startDecayNote s (pitch (activeNotes s ! i))) = Inr DECAY)
       \<and> slot_state_after (DecayCycles s + 1) i (startDecayNote s (pitch (activeNotes s ! i)))
           = Inr NULL"
proof -
  let ?s0 = "startDecayNote s (pitch (activeNotes s ! i))"
  have l: "i < length (activeNotes ?s0)"
    using assms(2) by (simp add: startDecayNote_def length_decay_loop)
  have st: "state (activeNotes ?s0 ! i) = DECAY"
    and ix: "profile_phase_index (activeNotes ?s0 ! i) = 0"
    using assms(2,3,4) by (simp_all add: startDecayNote_def nth_decay_loop)
  have dc: "DecayCycles ?s0 = DecayCycles s" by (simp add: startDecayNote_def)
  from decay_lifetime [OF assms(1) l st ix] st show ?thesis
    by (auto simp: slot_state_after_def dc)
qed

lemma decay_loop_attack_slot:
  "decay_loop 57 (note_A3\<lparr>state := ATTACK\<rparr> # replicate 9 initNull)
     = note_A3\<lparr>state := DECAY\<rparr> # replicate 9 initNull"
proof -
  have "decay_loop p (replicate n initNull) = replicate n initNull" for p n
    by (induction n) (simp_all add: initNull_def)
  then show ?thesis by (simp add: note_A3_def)
qed

lemma released_notes:
  "activeNotes (startDecayNote attack_pool 57) = note_A3\<lparr>state := DECAY\<rparr> # replicate 9 initNull"
  "activeNotes (startDecayNote bent_pool 57) = note_A3\<lparr>state := DECAY\<rparr> # replicate 9 initNull"
  by (simp_all add: startDecayNote_def bent_pool_def setAdsr_def attack_pool_def
      decay_loop_attack_slot del: decay_loop.simps)

lemma released_voices_ok:
  assumes "voice_ok s (note_A3\<lparr>state := DECAY\<rparr>)"
  shows "list_all (voice_ok s) (note_A3\<lparr>state := DECAY\<rparr> # replicate 9 initNull)"
proof -
  have "voice_ok s initNull"
    by (simp add: voice_ok_def renders_def initNull_def list_all_iff)
  with assms show ?thesis by (simp add: list_all_iff)
qed

lemma synth_ok_attack_pool_released: "synth_ok (startDecayNote attack_pool 57)"
proof -
  let ?s = "startDecayNote attack_pool 57"
  have t: "tables_ok ?s"
    by (simp add: tables_ok_def startDecayNote_def attack_pool_def demo_synth_def
        length_linspace clip_table_def length_base_table)
  have "voice_ok ?s (note_A3\<lparr>state := DECAY\<rparr>)"
    by (simp add: voice_ok_def renders_def freq_adjustments_def startDecayNote_def
        attack_pool_def demo_synth_def note_A3_def)
  then have "list_all (voice_ok ?s) (activeNotes ?s)"
    unfolding released_notes by (rule released_voices_ok)
  with t show ?thesis by (simp add: synth_ok_def)
qed

lemma synth_ok_bent_pool_released: "synth_ok (startDecayNote bent_pool 57)"
proof -
  let ?s = "startDecayNote bent_pool 57"
  have nz: "220 + (- 20 + sin y * 3) \<noteq> (0::real)" for y
    using sin_ge_minus_one [of y] by linarith
  have t: "tables_ok ?s"
    by (simp add: tables_ok_def startDecayNote_def bent_pool_def setAdsr_def attack_pool_def
        demo_synth_def length_linspace clip_table_def length_base_table)
  have fa: "freq_adjustments ?s = map (\<lambda>w. - 20 + w * 3) (map sin (linspace 0 (2 * pi) 15))"
    by (simp add: freq_adjustments_def startDecayNote_def bent_pool_def setAdsr_def
        attack_pool_def demo_synth_def)
  have c: "DecayCycles ?s = 2"
    by (simp add: startDecayNote_def bent_pool_def setAdsr_def)
  have "voice_ok ?s (note_A3\<lparr>state := DECAY\<rparr>)"
    unfolding voice_ok_def fa list_all_iff
  proof
    fix a assume "a \<in> set (map (\<lambda>w. - 20 + w * 3) (map sin (linspace 0 (2 * pi) 15)))"
    then obtain y where a: "a = - 20 + sin y * 3" by auto
    show "renders (?s\<lparr>notesFreqAdjust := a\<rparr>) (note_A3\<lparr>state := DECAY\<rparr>)"
      using nz [of y] by (simp add: renders_def a c note_A3_def)
  qed
  then have "list_all (voice_ok ?s) (activeNotes ?s)"
    unfolding released_notes by (rule released_voices_ok)
  with t show ?thesis by (simp add: synth_ok_def)
qed

lemma attack_pool_facts:
  "0 < length (activeNotes attack_pool)"
  "state (activeNotes attack_pool ! 0) = ATTACK"
  "profile_phase_index (activeNotes attack_pool ! 0) = 0"
  "pitch (activeNotes attack_pool ! 0) = 57"
  "DecayCycles attack_pool = 10"
  by (simp_all add: attack_pool_def demo_synth_def note_A3_def)

lemma bent_pool_facts:
  "0 < length (activeNotes bent_pool)"
  "state (activeNotes bent_pool ! 0) = ATTACK"
  "profile_phase_index (activeNotes bent_pool ! 0) = 0"
  "pitch (activeNotes bent_pool ! 0) = 57"
  "DecayCycles bent_pool = 2"
  "AttackCycles bent_pool = 5"
  "pitchWheelFreq bent_pool = - 20"
  "wobbleMag bent_pool = 3"
  by (simp_all add: bent_pool_def setAdsr_def attack_pool_def demo_synth_def note_A3_def)

text \<open>
  Claim C5, as the specification states it: after note-off during the attack the voice
  is \<^verbatim>\<open>NULL\<close> after exactly \<^verbatim>\<open>decayCycles\<close> further rendered blocks. The code does not do
  this: with 10 decay cycles the voice is still in \<^verbatim>\<open>DECAY\<close> after 10 further blocks.
  \<^verbatim>\<open>genWave\<close> compares the envelope position with \<^verbatim>\<open>DecayCycles\<close> before it increments
  it, so the positions 0 to 10 are all rendered.
\<close>

theorem decay_takes_one_more_block:
  "state (activeNotes attack_pool ! 0) = ATTACK
   \<and> DecayCycles attack_pool = 10
   \<and> slot_state_after 10 0 (startDecayNote attack_pool 57) = Inr DECAY"
proof -
  have ok: "synth_ok (startDecayNote attack_pool (pitch (activeNotes attack_pool ! 0)))"
    using synth_ok_attack_pool_released by (simp only: attack_pool_facts)
  note t = slot_state_after_decay [OF ok attack_pool_facts(1,2,3)]
  from t have "\<forall>d \<le> DecayCycles attack_pool.
      slot_state_after d 0 (startDecayNote attack_pool (pitch (activeNotes attack_pool ! 0))) = Inr DECAY"
    by blast
  from this [rule_format, of 10] show ?thesis
    by (simp add: attack_pool_facts)
qed

text \<open>
  Claim C5, amended: a voice that receives note-on and then note-off before its first
  block (state \<^verbatim>\<open>ATTACK\<close>, envelope position 0) goes from \<^verbatim>\<open>ATTACK\<close> straight to \<^verbatim>\<open>DECAY\<close>.
  If, after the note-off, the pool can be rendered (\<open>synth_ok\<close>: the tables have the
  lengths that \<^verbatim>\<open>setWaveForm\<close>, \<^verbatim>\<open>setAdsr\<close> and \<^verbatim>\<open>setWobble\<close> give them, and every sounding
  voice has a frequency that no pitch wheel and wobble offset of the callback makes
  zero, and an envelope position inside its profile), then each of the next
  \<^verbatim>\<open>decayCycles + 1\<close> blocks is rendered without an exception, the voice is in \<^verbatim>\<open>DECAY\<close>
  after each of the first \<^verbatim>\<open>decayCycles\<close> of them, so never in \<^verbatim>\<open>ON\<close>, and it is \<^verbatim>\<open>NULL\<close>
  after the last.
\<close>

theorem note_off_during_attack:
  assumes "synth_ok (startDecayNote s (pitch (activeNotes s ! i)))"
    and "i < length (activeNotes s)"
    and "state (activeNotes s ! i) = ATTACK"
    and "profile_phase_index (activeNotes s ! i) = 0"
  shows "state (activeNotes (startDecayNote s (pitch (activeNotes s ! i))) ! i) = DECAY
       \<and> (\<forall>d \<le> DecayCycles s.
             slot_state_after d i (startDecayNote s (pitch (activeNotes s ! i))) = Inr DECAY)
       \<and> slot_state_after (DecayCycles s + 1) i (startDecayNote s (pitch (activeNotes s ! i)))
           = Inr NULL"
  using assms by (rule slot_state_after_decay)

text \<open>
  Witness for C5: attack 5 and decay 2 blocks, pitch wheel at -20 Hz, wobble depth 3;
  the voice of slot 0 is in \<^verbatim>\<open>DECAY\<close> after 1 and 2 blocks and \<^verbatim>\<open>NULL\<close> after 3.
\<close>

theorem note_off_during_attack_witness:
  "synth_ok (startDecayNote bent_pool 57)
   \<and> pitch (activeNotes bent_pool ! 0) = 57
   \<and> 0 < length (activeNotes bent_pool)
   \<and> state (activeNotes bent_pool ! 0) = ATTACK
   \<and> profile_phase_index (activeNotes bent_pool ! 0) = 0
   \<and> AttackCycles bent_pool = 5 \<and> DecayCycles bent_pool = 2
   \<and> pitchWheelFreq bent_pool = - 20 \<and> wobbleMag bent_pool = 3
   \<and> state (activeNotes (startDecayNote bent_pool 57) ! 0) = DECAY
   \<and> slot_state_after 1 0 (startDecayNote bent_pool 57) = Inr DECAY
   \<and> slot_state_after 2 0 (startDecayNote bent_pool 57) = Inr DECAY
   \<and> slot_state_after 3 0 (startDecayNote bent_pool 57) = Inr NULL"
proof -
  have ok: "synth_ok (startDecayNote bent_pool (pitch (activeNotes bent_pool ! 0)))"
    using synth_ok_bent_pool_released by (simp only: bent_pool_facts)
  note t = note_off_during_attack [OF ok bent_pool_facts(1,2,3)]
  from t have a: "state (activeNotes (startDecayNote bent_pool 57) ! 0) = DECAY"
    by (simp add: bent_pool_facts)
  from t have all: "\<forall>d \<le> DecayCycles bent_pool.
      slot_state_after d 0 (startDecayNote bent_pool (pitch (activeNotes bent_pool ! 0))) = Inr DECAY"
    by blast
  from all [rule_format, of 1]
  have b: "slot_state_after 1 0 (startDecayNote bent_pool 57) = Inr DECAY"
    by (simp add: bent_pool_facts)
  from all [rule_format, of 2]
  have c: "slot_state_after 2 0 (startDecayNote bent_pool 57) = Inr DECAY"
    by (simp add: bent_pool_facts)
  from t have d: "slot_state_after 3 0 (startDecayNote bent_pool 57) = Inr NULL"
    by (simp add: bent_pool_facts)
  show ?thesis using synth_ok_bent_pool_released bent_pool_facts a b c d by simp
qed

subsection \<open>The mixing loop and \<^verbatim>\<open>IndexError\<close>\<close>

text \<open>
  With a wavetable of \<^verbatim>\<open>WAVE_SAMPLES\<close> entries neither \<^verbatim>\<open>genSoundData\<close> nor \<^verbatim>\<open>genWave\<close> nor
  the mixing loop raises \<^verbatim>\<open>IndexError\<close>: the \<^verbatim>\<open>except\<close> branch of \<^verbatim>\<open>runStream\<close> is not
  entered.
\<close>

lemma genSoundData_no_IndexError:
  assumes "length (WaveArray s) = WAVE_SAMPLES"
  shows "snd (genSoundData s note) \<noteq> Inl IndexError"
proof (cases "init_frequency note + notesFreqAdjust s = 0")
  case True
  then show ?thesis
    by (simp add: genSoundData_def Let_def phase_indices_def float_phases_def arange_def)
next
  case False
  from genSoundData_eq [OF False] obtain phases ph where
    bp: "\<forall>p \<in> set phases. p < WAVE_SAMPLES"
    and gs: "snd (genSoundData s note) =
                sample_block s
                  (note\<lparr>frequency := init_frequency note + notesFreqAdjust s, phase_index := ph\<rparr>)
                  phases"
    by force
  from bp assms have "\<forall>p \<in> set phases. p < length (WaveArray s)" by simp
  from sample_block_no_IndexError [OF this] gs show ?thesis by simp
qed

lemma genWave_no_IndexError:
  assumes "length (WaveArray s) = WAVE_SAMPLES"
  shows "snd (genWave s i) \<noteq> Inl IndexError
       \<and> WaveArray (fst (genWave s i)) = WaveArray s"
  using genSoundData_no_IndexError [OF assms]
  by (simp add: genWave_def Let_def deleteNote_def case_prod_beta)

lemma mix_voices_no_IndexError:
  assumes "length (WaveArray s) = WAVE_SAMPLES"
  shows "snd (snd (mix_voices s idx data)) \<noteq> Some IndexError"
  using assms
proof (induction idx arbitrary: s data)
  case Nil
  then show ?case by simp
next
  case (Cons i idx)
  obtain s1 r where gw: "genWave s i = (s1, r)" by (cases "genWave s i")
  from genWave_no_IndexError [OF Cons.prems, of i] gw
  have r: "r \<noteq> Inl IndexError" and w: "length (WaveArray s1) = WAVE_SAMPLES"
    using Cons.prems by simp_all
  show ?case
  proof (cases "state (activeNotes s ! i) = NULL")
    case True
    then show ?thesis using Cons.IH [OF Cons.prems] by simp
  next
    case False
    show ?thesis
    proof (cases r)
      case (Inl e)
      with r False gw show ?thesis by simp
    next
      case (Inr sd)
      show ?thesis
      proof (cases "iadd data sd")
        case (Inl e)
        then have "e = ValueError" by (simp add: iadd_def split: if_splits)
        with Inl False gw \<open>r = Inr sd\<close> show ?thesis by simp
      next
        case (Inr dat)
        with False gw \<open>r = Inr sd\<close> Cons.IH [OF w, of dat] show ?thesis by simp
      qed
    qed
  qed
qed

end
